theory Spec2Isabelle
  imports Complex_Main "HOL-Library.Char_ord" "HOL-Library.List_Lexorder"
begin

section \<open>JSON values and the persisted document\<close>

text \<open>
  The configuration lives in one JSON file. A JSON value is what \<^verbatim>\<open>JSON.parse\<close> returns:
  an object is kept as the list of its properties in order, and a property is read with
  \<open>map_of\<close>. Numbers never reach the registry code (they can only sit inside
  \<^verbatim>\<open>metadata\<close>, which is carried along uninterpreted), so a number is kept as its value.
\<close>

datatype json =
    JNull
  | JBool bool
  | JNum real
  | JStr string
  | JArr "json list"
  | JObj "(string \<times> json) list"

text \<open>
  The text of the file is represented by what \<^verbatim>\<open>JSON.parse\<close> makes of it: either it is
  not JSON (the parser throws a SyntaxError) or it is the document of a JSON value.
\<close>

datatype file_text = Garbage string | Document json

datatype error =
    ENOENT
  | ELOCKED
  | IoError
  | SyntaxError
  | TypeError
  | ZodError
  | NotFound string
  | FailedToRead error
  | FailedToWrite error
  | FailedToUpdate error

fun JSON_parse :: "file_text \<Rightarrow> error + json" where
  "JSON_parse (Garbage s) = Inl SyntaxError"
| "JSON_parse (Document j) = Inr j"

definition JSON_stringify :: "json \<Rightarrow> file_text" where
  "JSON_stringify j = Document j"

section \<open>Schema and defaults (types/config.ts)\<close>

record ToyboxRepoConfig =
  name :: string
  localPath :: string
  remoteUrl :: "string option"
  publishedUrl :: "string option"
  createdAt :: string
  lastUsedAt :: string
  isActive :: bool
  metadata :: "(string \<times> json) list option"

record Preferences =
  defaultRepoName :: string
  autoCommit :: bool
  commitMessage :: string

record ToyboxConfig =
  version :: string
  repositories :: "ToyboxRepoConfig list"
  activeRepository :: "string option"
  debug :: bool
  localTemplatePath :: "string option"
  lastUpdated :: string
  preferences :: Preferences

definition CONFIG_VERSION :: string where
  "CONFIG_VERSION = ''1.0.0''"

text \<open>
  The zod combinators the two schemas are built from. Each takes the value of a property
  (\<open>None\<close> when the key is missing) and returns \<open>None\<close> when zod raises an issue.
  \<^verbatim>\<open>optional()\<close> accepts a missing key but not \<^verbatim>\<open>null\<close>; \<^verbatim>\<open>default(d)\<close> replaces a
  missing key by \<open>d\<close>.
\<close>

fun z_string :: "json option \<Rightarrow> string option" where
  "z_string (Some (JStr s)) = Some s"
| "z_string _ = None"

fun z_string_optional :: "json option \<Rightarrow> string option option" where
  "z_string_optional None = Some None"
| "z_string_optional (Some (JStr s)) = Some (Some s)"
| "z_string_optional _ = None"

fun z_string_default :: "string \<Rightarrow> json option \<Rightarrow> string option" where
  "z_string_default d None = Some d"
| "z_string_default d (Some (JStr s)) = Some s"
| "z_string_default d _ = None"

fun z_boolean_default :: "bool \<Rightarrow> json option \<Rightarrow> bool option" where
  "z_boolean_default d None = Some d"
| "z_boolean_default d (Some (JBool b)) = Some b"
| "z_boolean_default d _ = None"

fun z_record_optional :: "json option \<Rightarrow> (string \<times> json) list option option" where
  "z_record_optional None = Some None"
| "z_record_optional (Some (JObj kv)) = Some (Some kv)"
| "z_record_optional _ = None"

fun ToyboxRepoConfigSchema :: "json \<Rightarrow> ToyboxRepoConfig option" where
  "ToyboxRepoConfigSchema (JObj kv) =
     Option.bind (z_string (map_of kv ''name'')) (\<lambda>n.
     Option.bind (z_string (map_of kv ''localPath'')) (\<lambda>lp.
     Option.bind (z_string_optional (map_of kv ''remoteUrl'')) (\<lambda>ru.
     Option.bind (z_string_optional (map_of kv ''publishedUrl'')) (\<lambda>pu.
     Option.bind (z_string (map_of kv ''createdAt'')) (\<lambda>ca.
     Option.bind (z_string (map_of kv ''lastUsedAt'')) (\<lambda>lu.
     Option.bind (z_boolean_default False (map_of kv ''isActive'')) (\<lambda>ia.
     Option.bind (z_record_optional (map_of kv ''metadata'')) (\<lambda>md.
       Some \<lparr>name = n, localPath = lp, remoteUrl = ru, publishedUrl = pu,
             createdAt = ca, lastUsedAt = lu, isActive = ia, metadata = md\<rparr>))))))))"
| "ToyboxRepoConfigSchema _ = None"

fun z_repositories :: "json option \<Rightarrow> ToyboxRepoConfig list option" where
  "z_repositories None = Some []"
| "z_repositories (Some (JArr js)) = those (map ToyboxRepoConfigSchema js)"
| "z_repositories _ = None"

definition PreferencesSchema :: "(string \<times> json) list \<Rightarrow> Preferences option" where
  "PreferencesSchema kv =
     Option.bind (z_string_default ''toybox'' (map_of kv ''defaultRepoName'')) (\<lambda>dn.
     Option.bind (z_boolean_default True (map_of kv ''autoCommit'')) (\<lambda>ac.
     Option.bind (z_string_default ''feat: Add new artifact via TOYBOX''
                    (map_of kv ''commitMessage'')) (\<lambda>cm.
       Some \<lparr>defaultRepoName = dn, autoCommit = ac, commitMessage = cm\<rparr>)))"

fun z_preferences :: "json option \<Rightarrow> Preferences option" where
  "z_preferences None = PreferencesSchema []"
| "z_preferences (Some (JObj kv)) = PreferencesSchema kv"
| "z_preferences _ = None"

fun ToyboxConfigSchema :: "json \<Rightarrow> ToyboxConfig option" where
  "ToyboxConfigSchema (JObj kv) =
     Option.bind (z_string_default ''1.0.0'' (map_of kv ''version'')) (\<lambda>v.
     Option.bind (z_repositories (map_of kv ''repositories'')) (\<lambda>rs.
     Option.bind (z_string_optional (map_of kv ''activeRepository'')) (\<lambda>ar.
     Option.bind (z_boolean_default False (map_of kv ''debug'')) (\<lambda>d.
     Option.bind (z_string_optional (map_of kv ''localTemplatePath'')) (\<lambda>tp.
     Option.bind (z_string (map_of kv ''lastUpdated'')) (\<lambda>lu.
     Option.bind (z_preferences (map_of kv ''preferences'')) (\<lambda>p.
       Some \<lparr>version = v, repositories = rs, activeRepository = ar, debug = d,
             localTemplatePath = tp, lastUpdated = lu, preferences = p\<rparr>)))))))"
| "ToyboxConfigSchema _ = None"

text \<open>\<^verbatim>\<open>ToyboxConfigSchema.parse\<close>: the validated configuration, or a thrown ZodError.\<close>

definition ToyboxConfigSchema_parse :: "json \<Rightarrow> error + ToyboxConfig" where
  "ToyboxConfigSchema_parse j =
     (case ToyboxConfigSchema j of None \<Rightarrow> Inl ZodError | Some c \<Rightarrow> Inr c)"

text \<open>
  The JSON value of an in-memory configuration: the properties in the order of the schema,
  a property whose value is \<^verbatim>\<open>undefined\<close> left out (as \<^verbatim>\<open>JSON.stringify\<close> leaves it out).
\<close>

fun optional_prop :: "string \<Rightarrow> json option \<Rightarrow> (string \<times> json) list" where
  "optional_prop k None = []"
| "optional_prop k (Some v) = [(k, v)]"

definition repo_json :: "ToyboxRepoConfig \<Rightarrow> json" where
  "repo_json r = JObj (
     [(''name'', JStr (name r)), (''localPath'', JStr (localPath r))]
     @ optional_prop ''remoteUrl'' (map_option JStr (remoteUrl r))
     @ optional_prop ''publishedUrl'' (map_option JStr (publishedUrl r))
     @ [(''createdAt'', JStr (createdAt r)), (''lastUsedAt'', JStr (lastUsedAt r)),
        (''isActive'', JBool (isActive r))]
     @ optional_prop ''metadata'' (map_option JObj (metadata r)))"

definition preferences_json :: "Preferences \<Rightarrow> json" where
  "preferences_json p = JObj
     [(''defaultRepoName'', JStr (defaultRepoName p)), (''autoCommit'', JBool (autoCommit p)),
      (''commitMessage'', JStr (commitMessage p))]"

definition config_json :: "ToyboxConfig \<Rightarrow> json" where
  "config_json c = JObj (
     [(''version'', JStr (version c)),
      (''repositories'', JArr (map repo_json (repositories c)))]
     @ optional_prop ''activeRepository'' (map_option JStr (activeRepository c))
     @ [(''debug'', JBool (debug c))]
     @ optional_prop ''localTemplatePath'' (map_option JStr (localTemplatePath c))
     @ [(''lastUpdated'', JStr (lastUpdated c)),
        (''preferences'', preferences_json (preferences c))])"

text \<open>
  \<^verbatim>\<open>createDefaultConfig\<close> consults the process environment and the clock; both are
  parameters here. \<open>now\<close> is \<^verbatim>\<open>new Date().toISOString()\<close>.
\<close>

record env =
  TOYBOX_DEBUG :: "string option"
  TOYBOX_LOCAL_TEMPLATE_PATH :: "string option"

definition createDefaultConfig :: "env \<Rightarrow> string \<Rightarrow> ToyboxConfig" where
  "createDefaultConfig e now =
     \<lparr>version = ''1.0.0'', repositories = [], activeRepository = None,
      debug = (TOYBOX_DEBUG e = Some ''true''),
      localTemplatePath = TOYBOX_LOCAL_TEMPLATE_PATH e,
      lastUpdated = now,
      preferences = \<lparr>defaultRepoName = ''toybox'', autoCommit = True,
                     commitMessage = ''feat: Add new artifact via TOYBOX''\<rparr>\<rparr>"

section \<open>The durable store (ConfigService.read, write, update, migrate)\<close>

text \<open>
  What the service sees of the file system: the file at \<^verbatim>\<open>configPath\<close> (absent, or its
  text), whether another holder has the lock on it (so that \<^verbatim>\<open>lockfile.lock\<close> gives up
  after its retries), and whether file I/O fails (\<^verbatim>\<open>readFile\<close> of an existing file, and
  the temp-file write and rename of \<^verbatim>\<open>write\<close>). The temporary file exists only inside
  \<^verbatim>\<open>write\<close> and is not part of the state. One call runs to its end on such a state:
  the clock reading \<open>now\<close> is the same for every \<^verbatim>\<open>new Date()\<close> of one call. Timestamps
  are the strings \<^verbatim>\<open>toISOString()\<close> prints, ordered as strings.
\<close>

record disk =
  configFile :: "file_text option"
  lockHeld :: bool
  ioFails :: bool

definition migrate :: "ToyboxConfig \<Rightarrow> ToyboxConfig" where
  "migrate config =
     (if version config \<noteq> CONFIG_VERSION then config\<lparr>version := CONFIG_VERSION\<rparr> else config)"

text \<open>
  \<^verbatim>\<open>write\<close> stamps \<^verbatim>\<open>lastUpdated\<close> on the object it was given (the caller sees the
  stamp, so the stamped object is returned), validates it, and replaces the file by the
  document of the validated object. A failure of the temp-file write or of the rename is
  rethrown wrapped and leaves the file as it was.
\<close>

definition writeConfig :: "string \<Rightarrow> ToyboxConfig \<Rightarrow> disk \<Rightarrow> (error + ToyboxConfig) \<times> disk" where
  "writeConfig now config d =
     (let config' = config\<lparr>lastUpdated := now\<rparr> in
      case ToyboxConfigSchema_parse (config_json config') of
        Inl e \<Rightarrow> (Inl e, d)
      | Inr validatedConfig \<Rightarrow>
          if ioFails d then (Inl (FailedToWrite IoError), d)
          else (Inr config',
                d\<lparr>configFile := Some (JSON_stringify (config_json validatedConfig))\<rparr>))"

text \<open>The body of the \<^verbatim>\<open>try\<close> block of \<^verbatim>\<open>read\<close>, then \<^verbatim>\<open>read\<close> with its \<^verbatim>\<open>catch\<close>.\<close>

definition read_try :: "env \<Rightarrow> string \<Rightarrow> disk \<Rightarrow> (error + ToyboxConfig) \<times> disk" where
  "read_try e now d =
     (case configFile d of
        None \<Rightarrow> writeConfig now (createDefaultConfig e now) d
      | Some configData \<Rightarrow>
          if ioFails d then (Inl IoError, d)
          else (case JSON_parse configData of
                  Inl err \<Rightarrow> (Inl err, d)
                | Inr parsedConfig \<Rightarrow>
                    (case ToyboxConfigSchema_parse parsedConfig of
                       Inl err \<Rightarrow> (Inl err, d)
                     | Inr validatedConfig \<Rightarrow> (Inr (migrate validatedConfig), d))))"

definition read :: "env \<Rightarrow> string \<Rightarrow> disk \<Rightarrow> (error + ToyboxConfig) \<times> disk" where
  "read e now d =
     (case read_try e now d of
        (Inr config, d') \<Rightarrow> (Inr config, d')
      | (Inl err, d') \<Rightarrow>
          if err = ZodError then writeConfig now (createDefaultConfig e now) d'
          else (Inl (FailedToRead err), d'))"

text \<open>
  \<^verbatim>\<open>lockfile.lock\<close> resolves the real path of the file first, so it rejects with code
  ENOENT when the file does not exist, and with ELOCKED when the lock stays held.
\<close>

definition lockfile_lock :: "disk \<Rightarrow> error + unit" where
  "lockfile_lock d =
     (case configFile d of
        None \<Rightarrow> Inl ENOENT
      | Some _ \<Rightarrow> if lockHeld d then Inl ELOCKED else Inr ())"

definition update_try ::
  "env \<Rightarrow> string \<Rightarrow> (ToyboxConfig \<Rightarrow> error + ToyboxConfig) \<Rightarrow> disk \<Rightarrow> (error + ToyboxConfig) \<times> disk" where
  "update_try e now updater d =
     (case lockfile_lock d of
        Inl err \<Rightarrow> (Inl err, d)
      | Inr _ \<Rightarrow>
          (case read e now d of
             (Inl err, d1) \<Rightarrow> (Inl err, d1)
           | (Inr currentConfig, d1) \<Rightarrow>
               (case updater currentConfig of
                  Inl err \<Rightarrow> (Inl err, d1)
                | Inr updatedConfig \<Rightarrow> writeConfig now updatedConfig d1)))"

definition update ::
  "env \<Rightarrow> string \<Rightarrow> (ToyboxConfig \<Rightarrow> error + ToyboxConfig) \<Rightarrow> disk \<Rightarrow> (error + ToyboxConfig) \<times> disk" where
  "update e now updater d =
     (case update_try e now updater d of
        (Inr config, d') \<Rightarrow> (Inr config, d')
      | (Inl err, d') \<Rightarrow>
          if err = ENOENT then
            (case updater (createDefaultConfig e now) of
               Inl err' \<Rightarrow> (Inl err', d')
             | Inr updatedConfig \<Rightarrow> writeConfig now updatedConfig d')
          else (Inl (FailedToUpdate err), d'))"

section \<open>Configurations in memory (the argument of write)\<close>

text \<open>
  \<^verbatim>\<open>metadata\<close> is typed \<^verbatim>\<open>Record<string, unknown>\<close>: in memory its values are arbitrary
  JavaScript values, not only what \<^verbatim>\<open>JSON.parse\<close> returns. The values kept here are the
  primitives \<^verbatim>\<open>JSON.stringify\<close> tells apart, arrays, and plain objects (as the list of their
  properties). \<open>JsNumber\<close> is a finite number other than \<^verbatim>\<open>-0\<close>.
\<close>

datatype jsvalue =
    JsUndefined
  | JsNull
  | JsBoolean bool
  | JsNumber real
  | JsNegativeZero
  | JsNaN
  | JsInfinity
  | JsNegativeInfinity
  | JsBigInt int
  | JsString string
  | JsArray "jsvalue list"
  | JsObject "(string \<times> jsvalue) list"

text \<open>
  \<^verbatim>\<open>JSON.stringify\<close>, as the JSON value its text denotes (\<open>None\<close>: the result is
  \<^verbatim>\<open>undefined\<close>). \<^verbatim>\<open>NaN\<close> and the infinities are written as \<^verbatim>\<open>null\<close>, \<^verbatim>\<open>-0\<close> as \<^verbatim>\<open>0\<close>;
  a BigInt throws a TypeError; a property whose value is \<^verbatim>\<open>undefined\<close> is left out, and an
  array element that is \<^verbatim>\<open>undefined\<close> is written as \<^verbatim>\<open>null\<close>.
\<close>

fun SerializeJSONProperty :: "jsvalue \<Rightarrow> error + json option"
  and SerializeJSONArray :: "jsvalue list \<Rightarrow> error + json list"
  and SerializeJSONObject :: "(string \<times> jsvalue) list \<Rightarrow> error + (string \<times> json) list" where
  "SerializeJSONProperty JsUndefined = Inr None"
| "SerializeJSONProperty JsNull = Inr (Some JNull)"
| "SerializeJSONProperty (JsBoolean b) = Inr (Some (JBool b))"
| "SerializeJSONProperty (JsNumber x) = Inr (Some (JNum x))"
| "SerializeJSONProperty JsNegativeZero = Inr (Some (JNum 0))"
| "SerializeJSONProperty JsNaN = Inr (Some JNull)"
| "SerializeJSONProperty JsInfinity = Inr (Some JNull)"
| "SerializeJSONProperty JsNegativeInfinity = Inr (Some JNull)"
| "SerializeJSONProperty (JsBigInt n) = Inl TypeError"
| "SerializeJSONProperty (JsString s) = Inr (Some (JStr s))"
| "SerializeJSONProperty (JsArray vs) =
     (case SerializeJSONArray vs of Inl err \<Rightarrow> Inl err | Inr js \<Rightarrow> Inr (Some (JArr js)))"
| "SerializeJSONProperty (JsObject kvs) =
     (case SerializeJSONObject kvs of Inl err \<Rightarrow> Inl err | Inr kjs \<Rightarrow> Inr (Some (JObj kjs)))"
| "SerializeJSONArray [] = Inr []"
| "SerializeJSONArray (v # vs) =
     (case SerializeJSONProperty v of
        Inl err \<Rightarrow> Inl err
      | Inr j \<Rightarrow>
          (case SerializeJSONArray vs of
             Inl err \<Rightarrow> Inl err
           | Inr js \<Rightarrow> Inr ((case j of None \<Rightarrow> JNull | Some j' \<Rightarrow> j') # js)))"
| "SerializeJSONObject [] = Inr []"
| "SerializeJSONObject ((k, v) # kvs) =
     (case SerializeJSONProperty v of
        Inl err \<Rightarrow> Inl err
      | Inr j \<Rightarrow>
          (case SerializeJSONObject kvs of
             Inl err \<Rightarrow> Inl err
           | Inr kjs \<Rightarrow> Inr ((case j of None \<Rightarrow> [] | Some j' \<Rightarrow> [(k, j')]) @ kjs)))"

text \<open>
  JSON data: \<^verbatim>\<open>null\<close>, booleans, strings, finite numbers other than \<^verbatim>\<open>-0\<close>, and arrays and
  plain objects of JSON data.
\<close>

fun json_data :: "jsvalue \<Rightarrow> bool"
  and json_elements :: "jsvalue list \<Rightarrow> bool"
  and json_properties :: "(string \<times> jsvalue) list \<Rightarrow> bool" where
  "json_data JsNull = True"
| "json_data (JsBoolean b) = True"
| "json_data (JsNumber x) = True"
| "json_data (JsString s) = True"
| "json_data (JsArray vs) = json_elements vs"
| "json_data (JsObject kvs) = json_properties kvs"
| "json_data JsUndefined = False"
| "json_data JsNegativeZero = False"
| "json_data JsNaN = False"
| "json_data JsInfinity = False"
| "json_data JsNegativeInfinity = False"
| "json_data (JsBigInt n) = False"
| "json_elements [] = True"
| "json_elements (v # vs) = (json_data v \<and> json_elements vs)"
| "json_properties [] = True"
| "json_properties ((k, v) # kvs) = (json_data v \<and> json_properties kvs)"

text \<open>The in-memory value that \<^verbatim>\<open>JSON.parse\<close> builds for a JSON value.\<close>

fun value_of :: "json \<Rightarrow> jsvalue" where
  "value_of JNull = JsNull"
| "value_of (JBool b) = JsBoolean b"
| "value_of (JNum x) = JsNumber x"
| "value_of (JStr s) = JsString s"
| "value_of (JArr js) = JsArray (map value_of js)"
| "value_of (JObj kjs) = JsObject (map (\<lambda>(k, j). (k, value_of j)) kjs)"

text \<open>
  The types \<^verbatim>\<open>ToyboxRepoConfig\<close> and \<^verbatim>\<open>ToyboxConfig\<close> as the caller of \<^verbatim>\<open>write\<close> can
  hold them: the records above, with \<^verbatim>\<open>metadata\<close> holding in-memory values. The fields carry
  the prefix \<open>obj_\<close>.
\<close>

record RepoObject =
  obj_name :: string
  obj_localPath :: string
  obj_remoteUrl :: "string option"
  obj_publishedUrl :: "string option"
  obj_createdAt :: string
  obj_lastUsedAt :: string
  obj_isActive :: bool
  obj_metadata :: "(string \<times> jsvalue) list option"

record ConfigObject =
  obj_version :: string
  obj_repositories :: "RepoObject list"
  obj_activeRepository :: "string option"
  obj_debug :: bool
  obj_localTemplatePath :: "string option"
  obj_lastUpdated :: string
  obj_preferences :: Preferences

text \<open>
  The object \<^verbatim>\<open>write\<close> is given, as a value: an optional property that is
  \<^verbatim>\<open>undefined\<close> is left out.
\<close>

fun optional_property :: "string \<Rightarrow> jsvalue option \<Rightarrow> (string \<times> jsvalue) list" where
  "optional_property k None = []"
| "optional_property k (Some v) = [(k, v)]"

definition repo_value :: "RepoObject \<Rightarrow> jsvalue" where
  "repo_value r = JsObject (
     [(''name'', JsString (obj_name r)), (''localPath'', JsString (obj_localPath r))]
     @ optional_property ''remoteUrl'' (map_option JsString (obj_remoteUrl r))
     @ optional_property ''publishedUrl'' (map_option JsString (obj_publishedUrl r))
     @ [(''createdAt'', JsString (obj_createdAt r)), (''lastUsedAt'', JsString (obj_lastUsedAt r)),
        (''isActive'', JsBoolean (obj_isActive r))]
     @ optional_property ''metadata'' (map_option JsObject (obj_metadata r)))"

definition preferences_value :: "Preferences \<Rightarrow> jsvalue" where
  "preferences_value p = JsObject
     [(''defaultRepoName'', JsString (defaultRepoName p)), (''autoCommit'', JsBoolean (autoCommit p)),
      (''commitMessage'', JsString (commitMessage p))]"

definition config_value :: "ConfigObject \<Rightarrow> jsvalue" where
  "config_value c = JsObject (
     [(''version'', JsString (obj_version c)),
      (''repositories'', JsArray (map repo_value (obj_repositories c)))]
     @ optional_property ''activeRepository'' (map_option JsString (obj_activeRepository c))
     @ [(''debug'', JsBoolean (obj_debug c))]
     @ optional_property ''localTemplatePath'' (map_option JsString (obj_localTemplatePath c))
     @ [(''lastUpdated'', JsString (obj_lastUpdated c)),
        (''preferences'', preferences_value (obj_preferences c))])"

text \<open>
  The schemas on in-memory values. They are the schemas of the section above, applied to
  the object itself and not to parsed JSON: a property that is there with the value
  \<^verbatim>\<open>undefined\<close> counts as missing, and \<^verbatim>\<open>z.record(z.unknown())\<close> accepts every value.
\<close>

fun z_string_value :: "jsvalue option \<Rightarrow> string option" where
  "z_string_value (Some (JsString s)) = Some s"
| "z_string_value _ = None"

fun z_string_optional_value :: "jsvalue option \<Rightarrow> string option option" where
  "z_string_optional_value None = Some None"
| "z_string_optional_value (Some JsUndefined) = Some None"
| "z_string_optional_value (Some (JsString s)) = Some (Some s)"
| "z_string_optional_value _ = None"

fun z_string_default_value :: "string \<Rightarrow> jsvalue option \<Rightarrow> string option" where
  "z_string_default_value d None = Some d"
| "z_string_default_value d (Some JsUndefined) = Some d"
| "z_string_default_value d (Some (JsString s)) = Some s"
| "z_string_default_value d _ = None"

fun z_boolean_default_value :: "bool \<Rightarrow> jsvalue option \<Rightarrow> bool option" where
  "z_boolean_default_value d None = Some d"
| "z_boolean_default_value d (Some JsUndefined) = Some d"
| "z_boolean_default_value d (Some (JsBoolean b)) = Some b"
| "z_boolean_default_value d _ = None"

fun z_record_optional_value :: "jsvalue option \<Rightarrow> (string \<times> jsvalue) list option option" where
  "z_record_optional_value None = Some None"
| "z_record_optional_value (Some JsUndefined) = Some None"
| "z_record_optional_value (Some (JsObject kv)) = Some (Some kv)"
| "z_record_optional_value _ = None"

fun ToyboxRepoConfigSchema_value :: "jsvalue \<Rightarrow> RepoObject option" where
  "ToyboxRepoConfigSchema_value (JsObject kv) =
     Option.bind (z_string_value (map_of kv ''name'')) (\<lambda>n.
     Option.bind (z_string_value (map_of kv ''localPath'')) (\<lambda>lp.
     Option.bind (z_string_optional_value (map_of kv ''remoteUrl'')) (\<lambda>ru.
     Option.bind (z_string_optional_value (map_of kv ''publishedUrl'')) (\<lambda>pu.
     Option.bind (z_string_value (map_of kv ''createdAt'')) (\<lambda>ca.
     Option.bind (z_string_value (map_of kv ''lastUsedAt'')) (\<lambda>lu.
     Option.bind (z_boolean_default_value False (map_of kv ''isActive'')) (\<lambda>ia.
     Option.bind (z_record_optional_value (map_of kv ''metadata'')) (\<lambda>md.
       Some \<lparr>obj_name = n, obj_localPath = lp, obj_remoteUrl = ru, obj_publishedUrl = pu,
             obj_createdAt = ca, obj_lastUsedAt = lu, obj_isActive = ia, obj_metadata = md\<rparr>))))))))"
| "ToyboxRepoConfigSchema_value _ = None"

fun z_repositories_value :: "jsvalue option \<Rightarrow> RepoObject list option" where
  "z_repositories_value None = Some []"
| "z_repositories_value (Some JsUndefined) = Some []"
| "z_repositories_value (Some (JsArray vs)) = those (map ToyboxRepoConfigSchema_value vs)"
| "z_repositories_value _ = None"

definition PreferencesSchema_value :: "(string \<times> jsvalue) list \<Rightarrow> Preferences option" where
  "PreferencesSchema_value kv =
     Option.bind (z_string_default_value ''toybox'' (map_of kv ''defaultRepoName'')) (\<lambda>dn.
     Option.bind (z_boolean_default_value True (map_of kv ''autoCommit'')) (\<lambda>ac.
     Option.bind (z_string_default_value ''feat: Add new artifact via TOYBOX''
                    (map_of kv ''commitMessage'')) (\<lambda>cm.
       Some \<lparr>defaultRepoName = dn, autoCommit = ac, commitMessage = cm\<rparr>)))"

fun z_preferences_value :: "jsvalue option \<Rightarrow> Preferences option" where
  "z_preferences_value None = PreferencesSchema_value []"
| "z_preferences_value (Some JsUndefined) = PreferencesSchema_value []"
| "z_preferences_value (Some (JsObject kv)) = PreferencesSchema_value kv"
| "z_preferences_value _ = None"

fun ToyboxConfigSchema_value :: "jsvalue \<Rightarrow> ConfigObject option" where
  "ToyboxConfigSchema_value (JsObject kv) =
     Option.bind (z_string_default_value ''1.0.0'' (map_of kv ''version'')) (\<lambda>v.
     Option.bind (z_repositories_value (map_of kv ''repositories'')) (\<lambda>rs.
     Option.bind (z_string_optional_value (map_of kv ''activeRepository'')) (\<lambda>ar.
     Option.bind (z_boolean_default_value False (map_of kv ''debug'')) (\<lambda>d.
     Option.bind (z_string_optional_value (map_of kv ''localTemplatePath'')) (\<lambda>tp.
     Option.bind (z_string_value (map_of kv ''lastUpdated'')) (\<lambda>lu.
     Option.bind (z_preferences_value (map_of kv ''preferences'')) (\<lambda>p.
       Some \<lparr>obj_version = v, obj_repositories = rs, obj_activeRepository = ar, obj_debug = d,
             obj_localTemplatePath = tp, obj_lastUpdated = lu, obj_preferences = p\<rparr>)))))))"
| "ToyboxConfigSchema_value _ = None"

definition ToyboxConfigSchema_parse_value :: "jsvalue \<Rightarrow> error + ConfigObject" where
  "ToyboxConfigSchema_parse_value v =
     (case ToyboxConfigSchema_value v of None \<Rightarrow> Inl ZodError | Some c \<Rightarrow> Inr c)"

text \<open>
  \<^verbatim>\<open>write\<close> on the object it is given: the stamp, the validation, then (inside the
  \<^verbatim>\<open>try\<close>) \<^verbatim>\<open>JSON.stringify\<close> of the validated object and the replacement of the file. An
  error thrown by \<^verbatim>\<open>JSON.stringify\<close> is rethrown as "Failed to write configuration", and
  the file stays as it was. On a configuration whose metadata is parsed JSON this is
  \<open>writeConfig\<close> (lemma \<open>write_object_config_object\<close> below).
\<close>

definition write_object :: "string \<Rightarrow> ConfigObject \<Rightarrow> disk \<Rightarrow> (error + ConfigObject) \<times> disk" where
  "write_object now config d =
     (let config' = config\<lparr>obj_lastUpdated := now\<rparr> in
      case ToyboxConfigSchema_parse_value (config_value config') of
        Inl e \<Rightarrow> (Inl e, d)
      | Inr validatedConfig \<Rightarrow>
          if ioFails d then (Inl (FailedToWrite IoError), d)
          else (case SerializeJSONProperty (config_value validatedConfig) of
                  Inl e \<Rightarrow> (Inl (FailedToWrite e), d)
                | Inr None \<Rightarrow> (Inl (FailedToWrite TypeError), d)
                | Inr (Some j) \<Rightarrow> (Inr config', d\<lparr>configFile := Some (JSON_stringify j)\<rparr>)))"

text \<open>A configuration as \<^verbatim>\<open>read\<close> returns it, seen as an object in memory.\<close>

definition repo_object :: "ToyboxRepoConfig \<Rightarrow> RepoObject" where
  "repo_object r =
     \<lparr>obj_name = name r, obj_localPath = localPath r, obj_remoteUrl = remoteUrl r,
      obj_publishedUrl = publishedUrl r, obj_createdAt = createdAt r,
      obj_lastUsedAt = lastUsedAt r, obj_isActive = isActive r,
      obj_metadata = map_option (map (\<lambda>(k, j). (k, value_of j))) (metadata r)\<rparr>"

definition config_object :: "ToyboxConfig \<Rightarrow> ConfigObject" where
  "config_object c =
     \<lparr>obj_version = version c, obj_repositories = map repo_object (repositories c),
      obj_activeRepository = activeRepository c, obj_debug = debug c,
      obj_localTemplatePath = localTemplatePath c, obj_lastUpdated = lastUpdated c,
      obj_preferences = preferences c\<rparr>"

text \<open>
  The metadata of every record, where there is one, holds JSON data only, and none of its
  own properties is named \<^verbatim>\<open>__proto__\<close>. (zod rebuilds a record property by property, and
  its recent versions do not carry a property of that name over; the schemas here keep it,
  and the statement about \<^verbatim>\<open>write\<close> leaves such metadata out.)
\<close>

definition json_metadata :: "ConfigObject \<Rightarrow> bool" where
  "json_metadata c =
     list_all (\<lambda>r. case obj_metadata r of
                      None \<Rightarrow> True
                    | Some kv \<Rightarrow> json_properties kv \<and> list_all (\<lambda>(k, v). k \<noteq> ''__proto__'') kv)
       (obj_repositories c)"

section \<open>The repository registry\<close>

text \<open>
  Every mutating operation is one \<^verbatim>\<open>update\<close> with its own updater. The source awaits the
  \<^verbatim>\<open>update\<close> and returns nothing; the operations here return what \<^verbatim>\<open>update\<close> returns
  (the configuration written, or the error thrown) next to the new state.
  \<^verbatim>\<open>findIndex\<close> returns \<open>None\<close> where the source's returns -1.
\<close>

fun findIndex :: "('a \<Rightarrow> bool) \<Rightarrow> 'a list \<Rightarrow> nat option" where
  "findIndex P [] = None"
| "findIndex P (x # xs) = (if P x then Some 0 else map_option Suc (findIndex P xs))"

text \<open>
  \<^verbatim>\<open>getActiveRepository\<close>: the test \<^verbatim>\<open>!config.activeRepository\<close> holds for a missing
  pointer and for the empty string.
\<close>

definition activeRepo :: "ToyboxConfig \<Rightarrow> ToyboxRepoConfig option" where
  "activeRepo config =
     (case activeRepository config of
        None \<Rightarrow> find isActive (repositories config)
      | Some p \<Rightarrow>
          if p = [] then find isActive (repositories config)
          else find (\<lambda>r. name r = p) (repositories config))"

definition getActiveRepository ::
  "env \<Rightarrow> string \<Rightarrow> disk \<Rightarrow> (error + ToyboxRepoConfig option) \<times> disk" where
  "getActiveRepository e now d =
     (case read e now d of
        (Inl err, d') \<Rightarrow> (Inl err, d')
      | (Inr config, d') \<Rightarrow> (Inr (activeRepo config), d'))"

definition getRepositories ::
  "env \<Rightarrow> string \<Rightarrow> disk \<Rightarrow> (error + ToyboxRepoConfig list) \<times> disk" where
  "getRepositories e now d =
     (case read e now d of
        (Inl err, d') \<Rightarrow> (Inl err, d')
      | (Inr config, d') \<Rightarrow> (Inr (repositories config), d'))"

definition setActive_updater :: "string \<Rightarrow> ToyboxConfig \<Rightarrow> error + ToyboxConfig" where
  "setActive_updater repoName config =
     (case find (\<lambda>r. name r = repoName) (repositories config) of
        None \<Rightarrow> Inl (NotFound repoName)
      | Some repo \<Rightarrow>
          Inr (config\<lparr>repositories :=
                        map (\<lambda>r. r\<lparr>isActive := (name r = repoName)\<rparr>) (repositories config),
                      activeRepository := Some repoName\<rparr>))"

definition setActiveRepository ::
  "env \<Rightarrow> string \<Rightarrow> string \<Rightarrow> disk \<Rightarrow> (error + ToyboxConfig) \<times> disk" where
  "setActiveRepository e now repoName d = update e now (setActive_updater repoName) d"

text \<open>
  The argument of \<^verbatim>\<open>upsertRepository\<close> is an object literal of type ToyboxRepoConfig. An
  optional key of it can be left out, or be there with the value \<^verbatim>\<open>undefined\<close> (the
  handlers pass \<^verbatim>\<open>remoteUrl: repoUrl\<close> with \<^verbatim>\<open>repoUrl\<close> possibly undefined), and the
  object spread tells the two apart: a key that is left out keeps the old value, a key
  that is there overwrites it.
\<close>

datatype 'a property = Absent | Undefined | Value 'a

fun spread :: "'a property \<Rightarrow> 'a option \<Rightarrow> 'a option" where
  "spread Absent old = old"
| "spread Undefined old = None"
| "spread (Value v) old = Some v"

record RepoArg =
  arg_name :: string
  arg_localPath :: string
  arg_remoteUrl :: "string property"
  arg_publishedUrl :: "string property"
  arg_createdAt :: string
  arg_lastUsedAt :: string
  arg_isActive :: bool
  arg_metadata :: "(string \<times> json) list property"

text \<open>\<^verbatim>\<open>{...config.repositories[existingIndex], ...repo, lastUsedAt: now}\<close>\<close>

definition merge_repo :: "ToyboxRepoConfig \<Rightarrow> RepoArg \<Rightarrow> string \<Rightarrow> ToyboxRepoConfig" where
  "merge_repo old repo now =
     \<lparr>name = arg_name repo, localPath = arg_localPath repo,
      remoteUrl = spread (arg_remoteUrl repo) (remoteUrl old),
      publishedUrl = spread (arg_publishedUrl repo) (publishedUrl old),
      createdAt = arg_createdAt repo, lastUsedAt = now, isActive = arg_isActive repo,
      metadata = spread (arg_metadata repo) (metadata old)\<rparr>"

text \<open>\<^verbatim>\<open>{...repo, createdAt: repo.createdAt || now, lastUsedAt: now}\<close>\<close>

definition new_repo :: "RepoArg \<Rightarrow> string \<Rightarrow> ToyboxRepoConfig" where
  "new_repo repo now =
     \<lparr>name = arg_name repo, localPath = arg_localPath repo,
      remoteUrl = spread (arg_remoteUrl repo) None,
      publishedUrl = spread (arg_publishedUrl repo) None,
      createdAt = (if arg_createdAt repo = [] then now else arg_createdAt repo),
      lastUsedAt = now, isActive = arg_isActive repo,
      metadata = spread (arg_metadata repo) None\<rparr>"

definition upsert_repos :: "string \<Rightarrow> RepoArg \<Rightarrow> ToyboxRepoConfig list \<Rightarrow> ToyboxRepoConfig list" where
  "upsert_repos now repo rs =
     (case findIndex (\<lambda>r. name r = arg_name repo) rs of
        Some existingIndex \<Rightarrow> rs[existingIndex := merge_repo (rs ! existingIndex) repo now]
      | None \<Rightarrow> rs @ [new_repo repo now])"

definition upsert_updater :: "string \<Rightarrow> RepoArg \<Rightarrow> ToyboxConfig \<Rightarrow> error + ToyboxConfig" where
  "upsert_updater now repo config =
     (let rs = upsert_repos now repo (repositories config) in
      if length rs = 1
      then Inr (config\<lparr>repositories := rs[0 := (rs ! 0)\<lparr>isActive := True\<rparr>],
                       activeRepository := Some (arg_name repo)\<rparr>)
      else Inr (config\<lparr>repositories := rs\<rparr>))"

definition upsertRepository ::
  "env \<Rightarrow> string \<Rightarrow> RepoArg \<Rightarrow> disk \<Rightarrow> (error + ToyboxConfig) \<times> disk" where
  "upsertRepository e now repo d = update e now (upsert_updater now repo) d"

definition remove_updater :: "string \<Rightarrow> ToyboxConfig \<Rightarrow> error + ToyboxConfig" where
  "remove_updater repoName config =
     (let rs = filter (\<lambda>r. name r \<noteq> repoName) (repositories config) in
      if activeRepository config = Some repoName then
        (if length rs > 0
         then Inr (config\<lparr>repositories := rs[0 := (rs ! 0)\<lparr>isActive := True\<rparr>],
                          activeRepository := Some (name (rs ! 0))\<rparr>)
         else Inr (config\<lparr>repositories := rs, activeRepository := None\<rparr>))
      else Inr (config\<lparr>repositories := rs\<rparr>))"

definition removeRepository ::
  "env \<Rightarrow> string \<Rightarrow> string \<Rightarrow> disk \<Rightarrow> (error + ToyboxConfig) \<times> disk" where
  "removeRepository e now repoName d = update e now (remove_updater repoName) d"

text \<open>
  \<^verbatim>\<open>touchRepository\<close> and \<^verbatim>\<open>updateRepository\<close> look the record up with \<^verbatim>\<open>find\<close> and
  assign to the object found, which is the first match in the list.
\<close>

definition touch_updater :: "string \<Rightarrow> string \<Rightarrow> ToyboxConfig \<Rightarrow> error + ToyboxConfig" where
  "touch_updater now repoName config =
     (case findIndex (\<lambda>r. name r = repoName) (repositories config) of
        Some i \<Rightarrow>
          Inr (config\<lparr>repositories :=
                 (repositories config)[i := (repositories config ! i)\<lparr>lastUsedAt := now\<rparr>]\<rparr>)
      | None \<Rightarrow> Inr config)"

definition touchRepository ::
  "env \<Rightarrow> string \<Rightarrow> string \<Rightarrow> disk \<Rightarrow> (error + ToyboxConfig) \<times> disk" where
  "touchRepository e now repoName d = update e now (touch_updater now repoName) d"

text \<open>
  The \<^verbatim>\<open>updates\<close> of \<^verbatim>\<open>updateRepository\<close> are a Partial of ToyboxRepoConfig: every key
  may be left out; a required key that is there holds a value of its type.
\<close>

record RepoUpdates =
  upd_name :: "string option"
  upd_localPath :: "string option"
  upd_remoteUrl :: "string property"
  upd_publishedUrl :: "string property"
  upd_createdAt :: "string option"
  upd_lastUsedAt :: "string option"
  upd_isActive :: "bool option"
  upd_metadata :: "(string \<times> json) list property"

fun assign :: "'a option \<Rightarrow> 'a \<Rightarrow> 'a" where
  "assign None old = old"
| "assign (Some v) old = v"

text \<open>\<^verbatim>\<open>Object.assign(repo, updates); repo.lastUsedAt = now\<close>\<close>

definition assign_repo :: "ToyboxRepoConfig \<Rightarrow> RepoUpdates \<Rightarrow> string \<Rightarrow> ToyboxRepoConfig" where
  "assign_repo repo updates now =
     \<lparr>name = assign (upd_name updates) (name repo),
      localPath = assign (upd_localPath updates) (localPath repo),
      remoteUrl = spread (upd_remoteUrl updates) (remoteUrl repo),
      publishedUrl = spread (upd_publishedUrl updates) (publishedUrl repo),
      createdAt = assign (upd_createdAt updates) (createdAt repo),
      lastUsedAt = now,
      isActive = assign (upd_isActive updates) (isActive repo),
      metadata = spread (upd_metadata updates) (metadata repo)\<rparr>"

definition updateRepository_updater ::
  "string \<Rightarrow> string \<Rightarrow> RepoUpdates \<Rightarrow> ToyboxConfig \<Rightarrow> error + ToyboxConfig" where
  "updateRepository_updater now repoName updates config =
     (case findIndex (\<lambda>r. name r = repoName) (repositories config) of
        Some i \<Rightarrow>
          Inr (config\<lparr>repositories :=
                 (repositories config)[i := assign_repo (repositories config ! i) updates now]\<rparr>)
      | None \<Rightarrow> Inr config)"

definition updateRepository ::
  "env \<Rightarrow> string \<Rightarrow> string \<Rightarrow> RepoUpdates \<Rightarrow> disk \<Rightarrow> (error + ToyboxConfig) \<times> disk" where
  "updateRepository e now repoName updates d =
     update e now (updateRepository_updater now repoName updates) d"

text \<open>The configuration a valid file holds: what \<^verbatim>\<open>JSON.parse\<close> and the schema make of it.\<close>

definition persisted :: "disk \<Rightarrow> ToyboxConfig option" where
  "persisted d =
     (case configFile d of
        Some (Document j) \<Rightarrow> ToyboxConfigSchema j
      | _ \<Rightarrow> None)"

section \<open>Two calls of update in flight\<close>

text \<open>
  \<^verbatim>\<open>update\<close> is an async function: between two of its \<^verbatim>\<open>await\<close>s another call of
  \<^verbatim>\<open>update\<close>, of this process or of another one, can run. What the calls share is the
  configuration file, the temporary file \<^verbatim>\<open>configPath + '.tmp'\<close> that every \<^verbatim>\<open>write\<close>
  goes through, and the lock.
\<close>

record shared =
  files :: disk
  tempFile :: "file_text option"
  lockOwned :: bool

text \<open>
  Where a call of \<^verbatim>\<open>update\<close> stands: before \<^verbatim>\<open>lockfile.lock\<close>; with the lock, before
  \<^verbatim>\<open>this.read()\<close>; inside \<^verbatim>\<open>write\<close> before \<^verbatim>\<open>writeFile(tempPath, ...)\<close>, and before
  \<^verbatim>\<open>rename(tempPath, configPath)\<close>; returned or rejected. Inside \<^verbatim>\<open>write\<close> the call
  remembers whether \<^verbatim>\<open>release\<close> is set (so that \<^verbatim>\<open>finally\<close> releases the lock), whether it
  is in the \<^verbatim>\<open>catch\<close> block of \<^verbatim>\<open>update\<close> already, and the configuration it was given.
\<close>

datatype stage =
    AtLock
  | AtRead
  | AtWriteFile bool bool ToyboxConfig
  | AtRename bool bool ToyboxConfig
  | Returned "error + ToyboxConfig"

text \<open>The \<^verbatim>\<open>finally\<close> block: the call settles, and gives the lock back if it had it.\<close>

definition finish :: "bool \<Rightarrow> error + ToyboxConfig \<Rightarrow> shared \<Rightarrow> stage \<times> shared" where
  "finish release r s = (Returned r, if release then s\<lparr>lockOwned := False\<rparr> else s)"

text \<open>
  An error thrown inside \<^verbatim>\<open>update\<close>. Thrown in the \<^verbatim>\<open>try\<close> block it reaches the
  \<^verbatim>\<open>catch\<close>: with the code ENOENT the updater is applied to a default configuration and
  the result goes to \<^verbatim>\<open>write\<close>, any other error is rethrown as "Failed to update
  configuration". Thrown in the \<^verbatim>\<open>catch\<close> block it rejects the call as it is.
\<close>

definition thrown ::
  "env \<Rightarrow> string \<Rightarrow> (ToyboxConfig \<Rightarrow> error + ToyboxConfig) \<Rightarrow> bool \<Rightarrow> bool \<Rightarrow> error \<Rightarrow> shared
     \<Rightarrow> stage \<times> shared" where
  "thrown e now updater release caught err s =
     (if caught then finish release (Inl err) s
      else if err = ENOENT then
        (case updater (createDefaultConfig e now) of
           Inl err' \<Rightarrow> finish release (Inl err') s
         | Inr updatedConfig \<Rightarrow> (AtWriteFile release True updatedConfig, s))
      else finish release (Inl (FailedToUpdate err)) s)"

text \<open>
  One step of a call, from one \<^verbatim>\<open>await\<close> to the next. A call that finds the lock taken by
  the other call retries (its retries are taken to last until the lock is given back); a
  lock held by an outsider for good is the flag \<open>lockHeld\<close> of the file state.
  \<^verbatim>\<open>this.read()\<close> runs under the lock and is taken as one step. The updaters of this service
  are synchronous, so the updater runs in the step that hands it its argument. \<^verbatim>\<open>write\<close>
  stamps and validates, then writes the temporary file; a failure inside its \<^verbatim>\<open>try\<close>
  removes the temporary file and throws "Failed to write configuration". \<^verbatim>\<open>rename\<close> moves
  whatever the temporary file holds at that moment, and fails with ENOENT when there is
  none.
\<close>

fun step ::
  "env \<Rightarrow> string \<Rightarrow> (ToyboxConfig \<Rightarrow> error + ToyboxConfig) \<Rightarrow> stage \<Rightarrow> shared \<Rightarrow> stage \<times> shared" where
  "step e now updater AtLock s =
     (case lockfile_lock (files s) of
        Inl err \<Rightarrow> thrown e now updater False False err s
      | Inr _ \<Rightarrow> if lockOwned s then (AtLock, s) else (AtRead, s\<lparr>lockOwned := True\<rparr>))"
| "step e now updater AtRead s =
     (case read e now (files s) of
        (Inl err, d') \<Rightarrow> thrown e now updater True False err (s\<lparr>files := d'\<rparr>)
      | (Inr currentConfig, d') \<Rightarrow>
          (case updater currentConfig of
             Inl err \<Rightarrow> thrown e now updater True False err (s\<lparr>files := d'\<rparr>)
           | Inr updatedConfig \<Rightarrow> (AtWriteFile True False updatedConfig, s\<lparr>files := d'\<rparr>)))"
| "step e now updater (AtWriteFile release caught config) s =
     (let config' = config\<lparr>lastUpdated := now\<rparr> in
      case ToyboxConfigSchema_parse (config_json config') of
        Inl err \<Rightarrow> thrown e now updater release caught err s
      | Inr validatedConfig \<Rightarrow>
          if ioFails (files s)
          then thrown e now updater release caught (FailedToWrite IoError) (s\<lparr>tempFile := None\<rparr>)
          else (AtRename release caught config',
                s\<lparr>tempFile := Some (JSON_stringify (config_json validatedConfig))\<rparr>))"
| "step e now updater (AtRename release caught config') s =
     (case tempFile s of
        None \<Rightarrow> thrown e now updater release caught (FailedToWrite ENOENT) s
      | Some text \<Rightarrow>
          if ioFails (files s)
          then thrown e now updater release caught (FailedToWrite IoError) (s\<lparr>tempFile := None\<rparr>)
          else finish release (Inr config')
                 (s\<lparr>files := (files s)\<lparr>configFile := Some text\<rparr>, tempFile := None\<rparr>))"
| "step e now updater (Returned r) s = (Returned r, s)"

text \<open>
  Two calls \<open>CallA\<close> and \<open>CallB\<close>, each with its clock reading and its updater, and a
  schedule that says whose step comes next.
\<close>

datatype turn = CallA | CallB

record caller =
  clock :: string
  updater_of :: "ToyboxConfig \<Rightarrow> error + ToyboxConfig"

fun run ::
  "env \<Rightarrow> caller \<Rightarrow> caller \<Rightarrow> turn list \<Rightarrow> stage \<times> stage \<times> shared \<Rightarrow> stage \<times> stage \<times> shared" where
  "run e ca cb [] st = st"
| "run e ca cb (CallA # schedule) (a, b, s) =
     (case step e (clock ca) (updater_of ca) a s of (a', s') \<Rightarrow> run e ca cb schedule (a', b, s'))"
| "run e ca cb (CallB # schedule) (a, b, s) =
     (case step e (clock cb) (updater_of cb) b s of (b', s') \<Rightarrow> run e ca cb schedule (a, b', s'))"

text \<open>No call in flight: no temporary file, and the lock not taken by either call.\<close>

definition idle :: "disk \<Rightarrow> shared" where
  "idle d = \<lparr>files = d, tempFile = None, lockOwned = False\<rparr>"

text \<open>The call of \<^verbatim>\<open>update\<close> that \<^verbatim>\<open>upsertRepository(repo)\<close> makes.\<close>

definition upsertRepository_call :: "string \<Rightarrow> RepoArg \<Rightarrow> caller" where
  "upsertRepository_call now repo = \<lparr>clock = now, updater_of = upsert_updater now repo\<rparr>"

section \<open>Properties of the registry\<close>

text \<open>
  The invariant on the active record: at most one record is flagged, and a pointer that is
  set names the flagged record. \<open>registry_inv\<close> adds that names are unique, which the
  registry calls need in order to keep it.
\<close>

definition active_invariant :: "ToyboxConfig \<Rightarrow> bool" where
  "active_invariant c \<longleftrightarrow>
     length (filter isActive (repositories c)) \<le> 1 \<and>
     (case activeRepository c of
        None \<Rightarrow> True
      | Some n \<Rightarrow> map name (filter isActive (repositories c)) = [n])"

definition registry_inv :: "ToyboxConfig \<Rightarrow> bool" where
  "registry_inv c \<longleftrightarrow> distinct (map name (repositories c)) \<and> active_invariant c"

text \<open>
  The records a call of the registry finds (none when there is no valid file), and the
  arguments of \<^verbatim>\<open>upsertRepository\<close> that do not bring a second flag: \<^verbatim>\<open>isActive\<close> is false
  for a new name unless the registry is empty, and is the stored flag for a registered
  name unless that record is the only one.
\<close>

definition registry :: "disk \<Rightarrow> ToyboxRepoConfig list" where
  "registry d = (case persisted d of None \<Rightarrow> [] | Some c \<Rightarrow> repositories c)"

definition upsert_keeps_flag :: "ToyboxRepoConfig list \<Rightarrow> RepoArg \<Rightarrow> bool" where
  "upsert_keeps_flag rs repo =
     (case find (\<lambda>r. name r = arg_name repo) rs of
        None \<Rightarrow> rs = [] \<or> \<not> arg_isActive repo
      | Some old \<Rightarrow> length rs = 1 \<or> arg_isActive repo = isActive old)"

text \<open>
  The states reached from a fresh installation (no file) by calls of
  \<^verbatim>\<open>upsertRepository\<close> (with such arguments), \<^verbatim>\<open>setActiveRepository\<close> and
  \<^verbatim>\<open>removeRepository\<close>, with any clock readings and any environment; between the calls
  the lock may be taken or released by others and I/O may start or stop failing.
\<close>

inductive reachable :: "disk \<Rightarrow> bool" where
  fresh: "configFile d = None \<Longrightarrow> reachable d"
| environment: "reachable d \<Longrightarrow> reachable (d\<lparr>lockHeld := l, ioFails := f\<rparr>)"
| upsert: "reachable d \<Longrightarrow> upsert_keeps_flag (registry d) repo \<Longrightarrow>
           reachable (snd (upsertRepository e now repo d))"
| setActive: "reachable d \<Longrightarrow> reachable (snd (setActiveRepository e now n d))"
| remove: "reachable d \<Longrightarrow> reachable (snd (removeRepository e now n d))"

definition disk_inv :: "disk \<Rightarrow> bool" where
  "disk_inv d \<longleftrightarrow> configFile d = None \<or> (\<exists>c. persisted d = Some c \<and> registry_inv c)"

text \<open>
  Whether \<^verbatim>\<open>getActiveRepository\<close> resolves to a record that \<^verbatim>\<open>upsertRepository\<close> has just
  appended, when it resolved to none before: the pointer is a non-empty name and is the
  name of the new record, or the pointer is missing or empty and the new record is flagged.
\<close>

definition resolves_to_new :: "ToyboxConfig \<Rightarrow> RepoArg \<Rightarrow> bool" where
  "resolves_to_new c repo =
     (case activeRepository c of
        None \<Rightarrow> arg_isActive repo
      | Some p \<Rightarrow> if p = [] then arg_isActive repo else p = arg_name repo)"

text \<open>
  The four registry calls that write timestamps, the name each one is called with, and the
  \<^verbatim>\<open>createdAt\<close> the caller supplies with it, if any. \<open>timestamps_kept\<close> relates a
  record before and after a call: \<^verbatim>\<open>lastUsedAt\<close> is kept or becomes the clock reading;
  \<^verbatim>\<open>createdAt\<close> is kept or, on a record with the name called, becomes the supplied one.
\<close>

datatype registry_call =
    Upsert RepoArg
  | Update string RepoUpdates
  | Touch string
  | SetActive string

fun perform :: "env \<Rightarrow> string \<Rightarrow> registry_call \<Rightarrow> disk \<Rightarrow> (error + ToyboxConfig) \<times> disk" where
  "perform e now (Upsert repo) d = upsertRepository e now repo d"
| "perform e now (Update repoName updates) d = updateRepository e now repoName updates d"
| "perform e now (Touch repoName) d = touchRepository e now repoName d"
| "perform e now (SetActive repoName) d = setActiveRepository e now repoName d"

fun call_updater :: "string \<Rightarrow> registry_call \<Rightarrow> ToyboxConfig \<Rightarrow> error + ToyboxConfig" where
  "call_updater now (Upsert repo) = upsert_updater now repo"
| "call_updater now (Update repoName updates) = updateRepository_updater now repoName updates"
| "call_updater now (Touch repoName) = touch_updater now repoName"
| "call_updater now (SetActive repoName) = setActive_updater repoName"

fun target :: "registry_call \<Rightarrow> string" where
  "target (Upsert repo) = arg_name repo"
| "target (Update repoName updates) = repoName"
| "target (Touch repoName) = repoName"
| "target (SetActive repoName) = repoName"

fun supplied_createdAt :: "registry_call \<Rightarrow> string option" where
  "supplied_createdAt (Upsert repo) = Some (arg_createdAt repo)"
| "supplied_createdAt (Update repoName updates) = upd_createdAt updates"
| "supplied_createdAt (Touch repoName) = None"
| "supplied_createdAt (SetActive repoName) = None"

definition timestamps_kept ::
  "string \<Rightarrow> registry_call \<Rightarrow> ToyboxRepoConfig \<Rightarrow> ToyboxRepoConfig \<Rightarrow> bool" where
  "timestamps_kept now call old new \<longleftrightarrow>
     (lastUsedAt new = lastUsedAt old \<or> lastUsedAt new = now) \<and>
     (createdAt new = createdAt old \<or>
      name old = target call \<and> supplied_createdAt call = Some (createdAt new))"

section \<open>Example values\<close>

text \<open>Concrete environments, arguments, configurations and files, on which the theorems are
  evaluated.\<close>

definition env0 :: env where
  "env0 = \<lparr>TOYBOX_DEBUG = None, TOYBOX_LOCAL_TEMPLATE_PATH = None\<rparr>"

definition garbage_disk :: disk where
  "garbage_disk =
     \<lparr>configFile = Some (Garbage ''{not json''), lockHeld = False, ioFails = False\<rparr>"

definition old_config :: ToyboxConfig where
  "old_config = (createDefaultConfig env0 ''2024-01-01T00:00:00.000Z'')\<lparr>version := ''0.9.0''\<rparr>"

definition old_disk :: disk where
  "old_disk =
     \<lparr>configFile = Some (Document (config_json old_config)), lockHeld = False, ioFails = False\<rparr>"

definition fresh_disk :: disk where
  "fresh_disk = \<lparr>configFile = None, lockHeld = False, ioFails = False\<rparr>"

definition alpha :: RepoArg where
  "alpha = \<lparr>arg_name = ''alpha'', arg_localPath = ''/tmp/alpha'', arg_remoteUrl = Absent,
            arg_publishedUrl = Absent, arg_createdAt = ''2024-01-01T00:00:00.000Z'',
            arg_lastUsedAt = ''2024-01-01T00:00:00.000Z'', arg_isActive = False,
            arg_metadata = Absent\<rparr>"

definition beta :: RepoArg where
  "beta = \<lparr>arg_name = ''beta'', arg_localPath = ''/tmp/beta'', arg_remoteUrl = Undefined,
           arg_publishedUrl = Undefined, arg_createdAt = ''2024-01-02T00:00:00.000Z'',
           arg_lastUsedAt = ''2024-01-02T00:00:00.000Z'', arg_isActive = True,
           arg_metadata = Absent\<rparr>"

definition future_config :: ToyboxConfig where
  "future_config =
     (createDefaultConfig env0 ''2030-01-01T00:00:00.000Z'')\<lparr>version := ''0.9.0''\<rparr>"

definition repo_alpha :: ToyboxRepoConfig where
  "repo_alpha = \<lparr>name = ''alpha'', localPath = ''/tmp/alpha'', remoteUrl = None,
                 publishedUrl = None, createdAt = ''2024-01-01T00:00:00.000Z'',
                 lastUsedAt = ''2024-01-01T00:00:00.000Z'', isActive = True, metadata = None\<rparr>"

definition repo_beta :: ToyboxRepoConfig where
  "repo_beta = \<lparr>name = ''beta'', localPath = ''/tmp/beta'', remoteUrl = None,
                publishedUrl = None, createdAt = ''2024-01-02T00:00:00.000Z'',
                lastUsedAt = ''2024-01-02T00:00:00.000Z'', isActive = False, metadata = None\<rparr>"

definition registry_ab :: ToyboxConfig where
  "registry_ab = (createDefaultConfig env0 ''2024-01-02T00:00:00.000Z'')
                   \<lparr>repositories := [repo_alpha, repo_beta], activeRepository := Some ''alpha''\<rparr>"

definition disk_of :: "ToyboxConfig \<Rightarrow> disk" where
  "disk_of c = \<lparr>configFile = Some (Document (config_json c)), lockHeld = False, ioFails = False\<rparr>"

definition nameless_repo :: ToyboxRepoConfig where
  "nameless_repo = repo_beta\<lparr>name := []\<rparr>"

definition nameless_config :: ToyboxConfig where
  "nameless_config = (createDefaultConfig env0 ''2024-01-02T00:00:00.000Z'')
                       \<lparr>repositories := [nameless_repo], activeRepository := Some []\<rparr>"

definition stale_config :: ToyboxConfig where
  "stale_config = registry_ab\<lparr>activeRepository := Some ''ghost''\<rparr>"

definition unset_config :: ToyboxConfig where
  "unset_config = registry_ab\<lparr>activeRepository := None\<rparr>"

definition registry_b :: ToyboxConfig where
  "registry_b = (createDefaultConfig env0 ''2024-01-02T00:00:00.000Z'')
                  \<lparr>repositories := [repo_beta\<lparr>isActive := True\<rparr>], activeRepository := Some ''beta''\<rparr>"

definition registry_a :: ToyboxConfig where
  "registry_a = (createDefaultConfig env0 ''2024-01-01T00:00:00.000Z'')
                  \<lparr>repositories := [repo_alpha], activeRepository := Some ''alpha''\<rparr>"

definition beta_inactive :: RepoArg where
  "beta_inactive = beta\<lparr>arg_isActive := False\<rparr>"

definition after_alpha :: disk where
  "after_alpha = snd (upsertRepository env0 ''2024-03-01T00:00:00.000Z'' alpha fresh_disk)"

definition alpha_only :: ToyboxConfig where
  "alpha_only = (createDefaultConfig env0 ''2024-03-01T00:00:00.000Z'')
                  \<lparr>repositories := [repo_alpha\<lparr>lastUsedAt := ''2024-03-01T00:00:00.000Z''\<rparr>],
                   activeRepository := Some ''alpha''\<rparr>"

definition switched_disk :: disk where
  "switched_disk =
     snd (setActiveRepository env0 ''2024-03-03T00:00:00.000Z'' ''beta''
       (snd (upsertRepository env0 ''2024-03-02T00:00:00.000Z'' beta_inactive after_alpha)))"

definition switched_config :: ToyboxConfig where
  "switched_config = alpha_only
     \<lparr>repositories := [repo_alpha\<lparr>lastUsedAt := ''2024-03-01T00:00:00.000Z'', isActive := False\<rparr>,
                       (new_repo beta ''2024-03-02T00:00:00.000Z'')\<lparr>isActive := True\<rparr>],
      activeRepository := Some ''beta'', lastUpdated := ''2024-03-03T00:00:00.000Z''\<rparr>"

definition two_active_disk :: disk where
  "two_active_disk = snd (upsertRepository env0 ''2024-03-02T00:00:00.000Z'' beta after_alpha)"

definition two_active_config :: ToyboxConfig where
  "two_active_config = alpha_only
     \<lparr>repositories := [repo_alpha\<lparr>lastUsedAt := ''2024-03-01T00:00:00.000Z''\<rparr>,
                       new_repo beta ''2024-03-02T00:00:00.000Z''],
      lastUpdated := ''2024-03-02T00:00:00.000Z''\<rparr>"

definition alpha_earlier :: RepoArg where
  "alpha_earlier = alpha\<lparr>arg_createdAt := ''2023-06-01T00:00:00.000Z''\<rparr>"

definition rolled_back_config :: ToyboxConfig where
  "rolled_back_config = alpha_only
     \<lparr>repositories := [repo_alpha\<lparr>createdAt := ''2023-06-01T00:00:00.000Z'',
                                    lastUsedAt := ''2024-03-02T00:00:00.000Z''\<rparr>],
      lastUpdated := ''2024-03-02T00:00:00.000Z''\<rparr>"

definition touched_config :: ToyboxConfig where
  "touched_config = alpha_only
     \<lparr>repositories := [repo_alpha\<lparr>lastUsedAt := ''2024-03-02T00:00:00.000Z''\<rparr>],
      lastUpdated := ''2024-03-02T00:00:00.000Z''\<rparr>"

definition after_beta :: disk where
  "after_beta = snd (upsertRepository env0 ''2024-03-02T00:00:00.000Z'' beta_inactive after_alpha)"

definition alpha_beta :: ToyboxConfig where
  "alpha_beta = alpha_only
     \<lparr>repositories := [repo_alpha\<lparr>lastUsedAt := ''2024-03-01T00:00:00.000Z''\<rparr>,
                       new_repo beta_inactive ''2024-03-02T00:00:00.000Z''],
      lastUpdated := ''2024-03-02T00:00:00.000Z''\<rparr>"

definition reflagged_config :: ToyboxConfig where
  "reflagged_config = alpha_beta
     \<lparr>repositories := [repo_alpha\<lparr>lastUsedAt := ''2024-03-01T00:00:00.000Z''\<rparr>,
                       (new_repo beta ''2024-03-02T00:00:00.000Z'')
                         \<lparr>lastUsedAt := ''2024-03-03T00:00:00.000Z''\<rparr>],
      lastUpdated := ''2024-03-03T00:00:00.000Z''\<rparr>"

definition earlier_createdAt :: RepoUpdates where
  "earlier_createdAt =
     \<lparr>upd_name = None, upd_localPath = None, upd_remoteUrl = Absent, upd_publishedUrl = Absent,
      upd_createdAt = Some ''2023-06-01T00:00:00.000Z'', upd_lastUsedAt = None,
      upd_isActive = None, upd_metadata = Absent\<rparr>"

definition touched_early_config :: ToyboxConfig where
  "touched_early_config = alpha_only
     \<lparr>repositories := [repo_alpha\<lparr>lastUsedAt := ''2024-02-01T00:00:00.000Z''\<rparr>],
      lastUpdated := ''2024-02-01T00:00:00.000Z''\<rparr>"

definition unflagged_config :: ToyboxConfig where
  "unflagged_config = (createDefaultConfig env0 ''2024-01-01T00:00:00.000Z'')
                        \<lparr>repositories := [repo_alpha\<lparr>isActive := False\<rparr>]\<rparr>"

definition stale_beta_config :: ToyboxConfig where
  "stale_beta_config = registry_a\<lparr>activeRepository := Some ''beta''\<rparr>"

definition stale_single_config :: ToyboxConfig where
  "stale_single_config = registry_a\<lparr>activeRepository := Some ''ghost''\<rparr>"

definition beta_only :: ToyboxConfig where
  "beta_only = (createDefaultConfig env0 ''2024-03-02T00:00:00.000Z'')
                 \<lparr>repositories := [(new_repo beta_inactive ''2024-03-02T00:00:00.000Z'')\<lparr>isActive := True\<rparr>],
                  activeRepository := Some ''beta''\<rparr>"

definition call_alpha :: caller where
  "call_alpha = upsertRepository_call ''2024-03-01T00:00:00.000Z'' alpha"

definition call_beta :: caller where
  "call_beta = upsertRepository_call ''2024-03-02T00:00:00.000Z'' beta_inactive"

definition tagged_object :: ConfigObject where
  "tagged_object = (config_object old_config)
     \<lparr>obj_repositories := [(repo_object repo_alpha)
        \<lparr>obj_metadata := Some [(''stars'', JsNumber 3), (''tags'', JsArray [JsString ''demo'', JsNull]),
                                 (''owner'', JsObject [(''verified'', JsBoolean True)])]\<rparr>]\<rparr>"

definition nan_object :: ConfigObject where
  "nan_object = (config_object registry_a)
     \<lparr>obj_repositories := [(repo_object repo_alpha)
        \<lparr>obj_metadata := Some [(''ratio'', JsNaN), (''limit'', JsInfinity), (''note'', JsUndefined),
                                 (''sizes'', JsArray [JsUndefined, JsNegativeZero])]\<rparr>]\<rparr>"

definition nan_read :: ToyboxConfig where
  "nan_read = registry_a
     \<lparr>repositories := [repo_alpha
        \<lparr>metadata := Some [(''ratio'', JNull), (''limit'', JNull), (''sizes'', JArr [JNull, JNum 0])]\<rparr>],
      lastUpdated := ''2024-03-01T00:00:00.000Z''\<rparr>"

definition bigint_object :: ConfigObject where
  "bigint_object = (config_object registry_a)
     \<lparr>obj_repositories := [(repo_object repo_alpha)\<lparr>obj_metadata := Some [(''size'', JsBigInt 1)]\<rparr>]\<rparr>"

section \<open>Helper lemmas: a written document reads back\<close>

lemma ToyboxRepoConfigSchema_repo_json: "ToyboxRepoConfigSchema (repo_json r) = Some r"
  by (cases "remoteUrl r"; cases "publishedUrl r"; cases "metadata r")
     (simp_all add: repo_json_def)

lemma those_map_repo_json: "those (map (ToyboxRepoConfigSchema \<circ> repo_json) rs) = Some rs"
  by (induction rs) (simp_all add: ToyboxRepoConfigSchema_repo_json)

lemma z_preferences_json: "z_preferences (Some (preferences_json p)) = Some p"
  by (simp add: preferences_json_def PreferencesSchema_def)

lemma ToyboxConfigSchema_config_json: "ToyboxConfigSchema (config_json c) = Some c"
  by (cases "activeRepository c"; cases "localTemplatePath c")
     (simp_all add: config_json_def those_map_repo_json z_preferences_json)

lemma ToyboxConfigSchema_parse_config_json: "ToyboxConfigSchema_parse (config_json c) = Inr c"
  by (simp add: ToyboxConfigSchema_parse_def ToyboxConfigSchema_config_json)

section \<open>Helper lemmas: the store on a valid file\<close>

lemma writeConfig_eq:
  "writeConfig now c d =
     (if ioFails d then (Inl (FailedToWrite IoError), d)
      else (Inr (c\<lparr>lastUpdated := now\<rparr>),
            d\<lparr>configFile := Some (Document (config_json (c\<lparr>lastUpdated := now\<rparr>)))\<rparr>))"
  by (simp add: writeConfig_def Let_def ToyboxConfigSchema_parse_config_json JSON_stringify_def)

lemma persisted_Document: "persisted (d\<lparr>configFile := Some (Document (config_json c))\<rparr>) = Some c"
  by (simp add: persisted_def ToyboxConfigSchema_config_json)

lemma persisted_SomeD:
  "persisted d = Some c \<Longrightarrow> \<exists>j. configFile d = Some (Document j) \<and> ToyboxConfigSchema j = Some c"
  by (auto simp: persisted_def split: option.splits file_text.splits)

lemma read_valid:
  assumes "configFile d = Some (Document j)" and "ToyboxConfigSchema j = Some c" and "\<not> ioFails d"
  shows "read e now d = (Inr (migrate c), d)"
  using assms by (simp add: read_def read_try_def ToyboxConfigSchema_parse_def)

lemma read_absent:
  assumes "configFile d = None" and "\<not> ioFails d"
  shows "read e now d =
           (Inr (createDefaultConfig e now),
            d\<lparr>configFile := Some (Document (config_json (createDefaultConfig e now)))\<rparr>)"
  using assms by (simp add: read_def read_try_def writeConfig_eq createDefaultConfig_def)

lemma update_valid_Inr:
  assumes "configFile d = Some (Document j)" and "ToyboxConfigSchema j = Some c"
    and "\<not> lockHeld d" and "\<not> ioFails d" and "updater (migrate c) = Inr c'"
  shows "update e now updater d =
           (Inr (c'\<lparr>lastUpdated := now\<rparr>),
            d\<lparr>configFile := Some (Document (config_json (c'\<lparr>lastUpdated := now\<rparr>)))\<rparr>)"
  using assms
  by (simp add: update_def update_try_def lockfile_lock_def read_valid writeConfig_eq)

lemma update_valid_Inl:
  assumes "configFile d = Some (Document j)" and "ToyboxConfigSchema j = Some c"
    and "\<not> lockHeld d" and "\<not> ioFails d" and "updater (migrate c) = Inl err" and "err \<noteq> ENOENT"
  shows "update e now updater d = (Inl (FailedToUpdate err), d)"
  using assms
  by (simp add: update_def update_try_def lockfile_lock_def read_valid)

lemma update_absent:
  assumes "configFile d = None"
  shows "update e now updater d =
           (case updater (createDefaultConfig e now) of
              Inl err \<Rightarrow> (Inl err, d)
            | Inr c' \<Rightarrow> writeConfig now c' d)"
  using assms by (simp add: update_def update_try_def lockfile_lock_def)

lemma update_on_document:
  assumes "configFile d = Some (Document (config_json c))" and "\<not> lockHeld d" and "\<not> ioFails d"
    and "updater (migrate c) = Inr cu"
  shows "persisted (snd (update e now updater d)) = Some (cu\<lparr>lastUpdated := now\<rparr>)"
  using update_valid_Inr [where updater = updater and c' = cu and e = e and now = now,
      OF assms(1) ToyboxConfigSchema_config_json assms(2,3,4)]
  by (simp add: persisted_Document)

text \<open>Whatever the state of the file, the lock and the I/O, an \<open>update\<close> leaves a valid
  configuration as it was or replaces it by the stamped result of the updater on it.\<close>

lemma update_persisted:
  assumes "persisted d = Some c" and noent: "\<And>x. updater x \<noteq> Inl ENOENT"
  shows "persisted (snd (update e now updater d)) = Some c \<or>
         (\<exists>cu. updater (migrate c) = Inr cu \<and>
               persisted (snd (update e now updater d)) = Some (cu\<lparr>lastUpdated := now\<rparr>))"
proof -
  from assms obtain j where j: "configFile d = Some (Document j)" "ToyboxConfigSchema j = Some c"
    using persisted_SomeD by blast
  show ?thesis
  proof (cases "lockHeld d \<or> ioFails d")
    case True
    then have "snd (update e now updater d) = d"
      using j by (auto simp: update_def update_try_def lockfile_lock_def read_def read_try_def)
    then show ?thesis using assms by simp
  next
    case False
    show ?thesis
    proof (cases "updater (migrate c)")
      case (Inl err)
      with noent have "err \<noteq> ENOENT" by metis
      then have "snd (update e now updater d) = d"
        using j False Inl update_valid_Inl [of d j c updater err e now] by simp
      then show ?thesis using assms by simp
    next
      case (Inr cu)
      then show ?thesis
        using j False update_valid_Inr [of d j c updater cu e now]
        by (simp add: persisted_Document)
    qed
  qed
qed

lemma update_unpersisted:
  assumes "persisted d = None"
  shows "configFile (snd (update e now updater d)) = configFile d \<or>
         persisted (snd (update e now updater d)) = Some (createDefaultConfig e now) \<or>
         (\<exists>cu. updater (createDefaultConfig e now) = Inr cu \<and>
               persisted (snd (update e now updater d)) = Some (cu\<lparr>lastUpdated := now\<rparr>))"
proof (cases "configFile d")
  case None
  then show ?thesis
    by (auto simp: update_absent writeConfig_eq persisted_Document split: sum.splits)
next
  case (Some t)
  have dflt: "(createDefaultConfig e now)\<lparr>lastUpdated := now\<rparr> = createDefaultConfig e now"
    by (simp add: createDefaultConfig_def)
  show ?thesis
  proof (cases "lockHeld d \<or> ioFails d")
    case True
    then have "snd (update e now updater d) = d"
      using Some by (auto simp: update_def update_try_def lockfile_lock_def read_def read_try_def)
    then show ?thesis by simp
  next
    case False
    show ?thesis
    proof (cases t)
      case (Garbage s)
      then have "snd (update e now updater d) = d"
        using Some False
        by (simp add: update_def update_try_def lockfile_lock_def read_def read_try_def)
      then show ?thesis by simp
    next
      case (Document j)
      with Some assms have nj: "ToyboxConfigSchema j = None"
        by (simp add: persisted_def)
      have rd: "read e now d =
          (Inr (createDefaultConfig e now),
           d\<lparr>configFile := Some (Document (config_json (createDefaultConfig e now)))\<rparr>)"
        using Some Document nj False
        by (simp add: read_def read_try_def ToyboxConfigSchema_parse_def writeConfig_eq dflt)
      show ?thesis
      proof (cases "updater (createDefaultConfig e now)")
        case (Inl err)
        then have "snd (update e now updater d) =
            d\<lparr>configFile := Some (Document (config_json (createDefaultConfig e now)))\<rparr>"
          using Some False rd
          by (simp add: update_def update_try_def lockfile_lock_def writeConfig_eq)
        then show ?thesis by (simp add: persisted_Document)
      next
        case (Inr cu)
        then have "snd (update e now updater d) =
            d\<lparr>configFile := Some (Document (config_json (cu\<lparr>lastUpdated := now\<rparr>)))\<rparr>"
          using Some False rd
          by (simp add: update_def update_try_def lockfile_lock_def writeConfig_eq)
        then show ?thesis using Inr by (simp add: persisted_Document)
      qed
    qed
  qed
qed

section \<open>Reading a broken or outdated file\<close>

text \<open>A file that is not JSON makes \<^verbatim>\<open>read\<close> fail, whatever its text, and stays as it is.\<close>

lemma read_not_json:
  assumes "configFile d = Some (Garbage s)" and "\<not> ioFails d"
  shows "read e now d = (Inl (FailedToRead SyntaxError), d)"
  using assms by (simp add: read_def read_try_def)

text \<open>A document that parses but fails the schema is replaced by the default
  configuration, which is returned.\<close>

lemma read_invalid_document:
  assumes "configFile d = Some (Document j)" and "ToyboxConfigSchema j = None" and "\<not> ioFails d"
  shows "read e now d =
           (Inr (createDefaultConfig e now),
            d\<lparr>configFile := Some (Document (config_json (createDefaultConfig e now)))\<rparr>)"
  using assms
  by (simp add: read_def read_try_def ToyboxConfigSchema_parse_def writeConfig_eq
      createDefaultConfig_def)

text \<open>
  C1. The claim: whenever the file is not valid JSON or fails the schema, \<^verbatim>\<open>read()\<close>
  returns a default configuration, writes it over the broken file and propagates no
  error. The \<^verbatim>\<open>catch\<close> of \<^verbatim>\<open>read\<close> repairs only on a ZodError. On a file that is not JSON,
  \<^verbatim>\<open>JSON.parse\<close> throws a SyntaxError, and \<^verbatim>\<open>read\<close> rethrows it as
  "Failed to read configuration" and leaves the file as it is: evaluated here on the file
  text \<^verbatim>\<open>{not json\<close>.
\<close>

theorem read_garbage_propagates:
  "read env0 ''2024-03-01T00:00:00.000Z'' garbage_disk =
     (Inl (FailedToRead SyntaxError), garbage_disk)"
  by (simp add: read_def read_try_def garbage_disk_def)

text \<open>
  C10. A file that parses and validates but carries another version than the current one:
  \<^verbatim>\<open>read()\<close> returns the configuration with the current version and does not touch the
  file, which still holds the configuration with the old version; a later \<^verbatim>\<open>write\<close> of
  the returned configuration is what puts the current version on disk.
\<close>

theorem read_migrates_in_memory_only:
  assumes "configFile d = Some (Document j)" and "ToyboxConfigSchema j = Some c"
    and "version c \<noteq> CONFIG_VERSION" and "\<not> ioFails d"
  shows "read e now d = (Inr (c\<lparr>version := CONFIG_VERSION\<rparr>), d) \<and>
         persisted (snd (read e now d)) = Some c \<and>
         persisted (snd (writeConfig now' (c\<lparr>version := CONFIG_VERSION\<rparr>) d)) =
           Some (c\<lparr>version := CONFIG_VERSION, lastUpdated := now'\<rparr>)"
  using assms
  by (simp add: read_valid migrate_def persisted_def writeConfig_eq ToyboxConfigSchema_config_json)

theorem read_migrates_in_memory_only_witness:
  "configFile old_disk = Some (Document (config_json old_config)) \<and>
   ToyboxConfigSchema (config_json old_config) = Some old_config \<and>
   version old_config \<noteq> CONFIG_VERSION \<and> \<not> ioFails old_disk \<and>
   read env0 ''2024-03-01T00:00:00.000Z'' old_disk =
     (Inr (old_config\<lparr>version := ''1.0.0''\<rparr>), old_disk) \<and>
   persisted (snd (read env0 ''2024-03-01T00:00:00.000Z'' old_disk)) = Some old_config \<and>
   version old_config = ''0.9.0''"
proof -
  have h1: "configFile old_disk = Some (Document (config_json old_config))"
    by (simp add: old_disk_def)
  have h2: "ToyboxConfigSchema (config_json old_config) = Some old_config"
    by (rule ToyboxConfigSchema_config_json)
  have h3: "version old_config \<noteq> CONFIG_VERSION"
    by (simp add: old_config_def CONFIG_VERSION_def)
  have h4: "\<not> ioFails old_disk"
    by (simp add: old_disk_def)
  have v: "version old_config = ''0.9.0''" by (simp add: old_config_def)
  note w = read_migrates_in_memory_only [OF h1 h2 h3 h4, of env0 "''2024-03-01T00:00:00.000Z''"
      "''2024-03-01T00:00:00.000Z''"]
  from w have a: "read env0 ''2024-03-01T00:00:00.000Z'' old_disk =
      (Inr (old_config\<lparr>version := ''1.0.0''\<rparr>), old_disk)"
    by (simp add: CONFIG_VERSION_def)
  from w have b: "persisted (snd (read env0 ''2024-03-01T00:00:00.000Z'' old_disk)) = Some old_config"
    by blast
  show ?thesis using h1 h2 h3 h4 v a b by blast
qed

section \<open>Writing and reading back\<close>

lemma ToyboxRepoConfigSchema_repo_value: "ToyboxRepoConfigSchema_value (repo_value r) = Some r"
  by (cases "obj_remoteUrl r"; cases "obj_publishedUrl r"; cases "obj_metadata r")
     (simp_all add: repo_value_def)

lemma those_map_repo_value: "those (map (ToyboxRepoConfigSchema_value \<circ> repo_value) rs) = Some rs"
  by (induction rs) (simp_all add: ToyboxRepoConfigSchema_repo_value)

lemma z_preferences_value: "z_preferences_value (Some (preferences_value p)) = Some p"
  by (simp add: preferences_value_def PreferencesSchema_value_def)

lemma ToyboxConfigSchema_config_value: "ToyboxConfigSchema_value (config_value c) = Some c"
  by (cases "obj_activeRepository c"; cases "obj_localTemplatePath c")
     (simp_all add: config_value_def those_map_repo_value z_preferences_value)

lemma SerializeJSONArray_value_of:
  assumes "\<And>j. j \<in> set js \<Longrightarrow> SerializeJSONProperty (value_of j) = Inr (Some j)"
  shows "SerializeJSONArray (map value_of js) = Inr js"
  using assms by (induction js) simp_all

lemma SerializeJSONObject_value_of:
  assumes "\<And>k j. (k, j) \<in> set kjs \<Longrightarrow> SerializeJSONProperty (value_of j) = Inr (Some j)"
  shows "SerializeJSONObject (map (\<lambda>(k, j). (k, value_of j)) kjs) = Inr kjs"
  using assms
proof (induction kjs)
  case Nil
  show ?case by simp
next
  case (Cons kj kjs)
  obtain k j where kj: "kj = (k, j)" by (cases kj)
  from Cons.prems [of k j] kj have "SerializeJSONProperty (value_of j) = Inr (Some j)"
    by simp
  moreover have "SerializeJSONObject (map (\<lambda>(k, j). (k, value_of j)) kjs) = Inr kjs"
  proof (rule Cons.IH)
    fix k' j' assume "(k', j') \<in> set kjs"
    then show "SerializeJSONProperty (value_of j') = Inr (Some j')"
      using Cons.prems [of k' j'] by simp
  qed
  ultimately show ?case using kj by simp
qed

lemma SerializeJSONProperty_value_of: "SerializeJSONProperty (value_of j) = Inr (Some j)"
proof (induction j)
  case (JArr js)
  then show ?case by (simp add: SerializeJSONArray_value_of)
next
  case (JObj kjs)
  have "SerializeJSONObject (map (\<lambda>(k, j). (k, value_of j)) kjs) = Inr kjs"
  proof (rule SerializeJSONObject_value_of)
    fix k j assume "(k, j) \<in> set kjs"
    then show "SerializeJSONProperty (value_of j) = Inr (Some j)"
      using JObj.IH [of "(k, j)" j] by simp
  qed
  then show ?case by simp
qed simp_all

lemma json_data_value_of:
  "json_data v \<Longrightarrow> \<exists>j. v = value_of j"
  "json_elements vs \<Longrightarrow> \<exists>js. vs = map value_of js"
  "json_properties kvs \<Longrightarrow> \<exists>kjs. kvs = map (\<lambda>(k, j). (k, value_of j)) kjs"
proof (induction v and vs and kvs rule: json_data_json_elements_json_properties.induct)
  case 1
  show ?case by (rule exI [of _ JNull]) simp
next
  case (2 b)
  show ?case by (rule exI [of _ "JBool b"]) simp
next
  case (3 x)
  show ?case by (rule exI [of _ "JNum x"]) simp
next
  case (4 s)
  show ?case by (rule exI [of _ "JStr s"]) simp
next
  case (5 vs)
  then obtain js where "vs = map value_of js" by auto
  then show ?case by (intro exI [of _ "JArr js"]) simp
next
  case (6 kvs)
  then obtain kjs where "kvs = map (\<lambda>(k, j). (k, value_of j)) kjs" by auto
  then show ?case by (intro exI [of _ "JObj kjs"]) simp
next
  case 13
  show ?case by (rule exI [of _ "[]"]) simp
next
  case (14 v vs)
  then obtain j js where "v = value_of j" "vs = map value_of js" by auto
  then show ?case by (intro exI [of _ "j # js"]) simp
next
  case 15
  show ?case by (rule exI [of _ "[]"]) simp
next
  case (16 k v kvs)
  then obtain j kjs where "v = value_of j" "kvs = map (\<lambda>(k, j). (k, value_of j)) kjs" by auto
  then show ?case by (intro exI [of _ "(k, j) # kjs"]) simp
qed simp_all


lemma SerializeJSONObject_append:
  "SerializeJSONObject (xs @ ys) =
     (case SerializeJSONObject xs of
        Inl err \<Rightarrow> Inl err
      | Inr a \<Rightarrow> (case SerializeJSONObject ys of Inl err \<Rightarrow> Inl err | Inr b \<Rightarrow> Inr (a @ b)))"
  by (induction xs) (auto split: sum.splits option.splits)

lemma SerializeJSONProperty_repo_object:
  "SerializeJSONProperty (repo_value (repo_object r)) = Inr (Some (repo_json r))"
  by (cases "remoteUrl r"; cases "publishedUrl r"; cases "metadata r")
     (simp_all add: repo_value_def repo_object_def repo_json_def SerializeJSONObject_value_of
        SerializeJSONProperty_value_of)

lemma SerializeJSONArray_repo_object:
  "SerializeJSONArray (map (repo_value \<circ> repo_object) rs) = Inr (map repo_json rs)"
  by (induction rs) (simp_all add: SerializeJSONProperty_repo_object)

lemma SerializeJSONProperty_config_object:
  "SerializeJSONProperty (config_value (config_object c)) = Inr (Some (config_json c))"
  by (cases "activeRepository c"; cases "localTemplatePath c")
     (simp_all add: config_value_def config_object_def config_json_def
        SerializeJSONArray_repo_object preferences_value_def preferences_json_def)

lemma config_object_update:
  "config_object (c\<lparr>lastUpdated := now\<rparr>) = (config_object c)\<lparr>obj_lastUpdated := now\<rparr>"
  "config_object (c\<lparr>version := v\<rparr>) = (config_object c)\<lparr>obj_version := v\<rparr>"
  by (simp_all add: config_object_def)

lemma write_object_config_object:
  "write_object now (config_object c) d =
     (case writeConfig now c d of (r, d') \<Rightarrow> (map_sum id config_object r, d'))"
proof -
  have "SerializeJSONProperty (config_value ((config_object c)\<lparr>obj_lastUpdated := now\<rparr>)) =
        Inr (Some (config_json (c\<lparr>lastUpdated := now\<rparr>)))"
    using SerializeJSONProperty_config_object [of "c\<lparr>lastUpdated := now\<rparr>"]
    by (simp only: config_object_update)
  then show ?thesis
    by (simp add: write_object_def Let_def ToyboxConfigSchema_parse_value_def
        ToyboxConfigSchema_config_value writeConfig_eq JSON_stringify_def config_object_update)
qed

lemma json_metadata_repo:
  assumes "case obj_metadata r of None \<Rightarrow> True | Some kv \<Rightarrow> json_properties kv"
  shows "\<exists>r'. r = repo_object r'"
proof -
  have "\<exists>m. obj_metadata r = map_option (map (\<lambda>(k, j). (k, value_of j))) m"
  proof (cases "obj_metadata r")
    case None
    then show ?thesis by (intro exI [of _ None]) simp
  next
    case (Some kv)
    with assms obtain kjs where "kv = map (\<lambda>(k, j). (k, value_of j)) kjs"
      using json_data_value_of(3) [of kv] by auto
    with Some show ?thesis by (intro exI [of _ "Some kjs"]) simp
  qed
  then obtain m where m: "obj_metadata r = map_option (map (\<lambda>(k, j). (k, value_of j))) m" ..
  show ?thesis
    by (rule exI [of _ "\<lparr>name = obj_name r, localPath = obj_localPath r, remoteUrl = obj_remoteUrl r,
          publishedUrl = obj_publishedUrl r, createdAt = obj_createdAt r,
          lastUsedAt = obj_lastUsedAt r, isActive = obj_isActive r, metadata = m\<rparr>"])
       (simp add: repo_object_def m)
qed

lemma json_metadata_repos:
  assumes "list_all (\<lambda>r. case obj_metadata r of
                            None \<Rightarrow> True
                          | Some kv \<Rightarrow> json_properties kv \<and> list_all (\<lambda>(k, v). k \<noteq> ''__proto__'') kv) rs"
  shows "\<exists>rs'. rs = map repo_object rs'"
  using assms
proof (induction rs)
  case Nil
  show ?case by (rule exI [of _ "[]"]) simp
next
  case (Cons r rs)
  from Cons.prems have "case obj_metadata r of None \<Rightarrow> True | Some kv \<Rightarrow> json_properties kv"
    by (simp split: option.splits)
  then obtain r' where "r = repo_object r'"
    using json_metadata_repo [of r] by auto
  moreover from Cons obtain rs' where "rs = map repo_object rs'"
    by auto
  ultimately have "r = repo_object r'" "rs = map repo_object rs'"
    by simp_all
  then show ?case by (intro exI [of _ "r' # rs'"]) simp
qed

lemma json_metadata_config_object:
  assumes "json_metadata C"
  shows "\<exists>c. C = config_object c"
proof -
  from assms obtain rs' where rs: "obj_repositories C = map repo_object rs'"
    using json_metadata_repos [of "obj_repositories C"] by (auto simp: json_metadata_def)
  show ?thesis
    by (rule exI [of _ "\<lparr>version = obj_version C, repositories = rs',
          activeRepository = obj_activeRepository C, debug = obj_debug C,
          localTemplatePath = obj_localTemplatePath C, lastUpdated = obj_lastUpdated C,
          preferences = obj_preferences C\<rparr>"])
       (simp add: config_object_def rs)
qed

lemma writeConfig_then_read:
  assumes "\<not> ioFails d"
  shows "read e now' (snd (writeConfig now C d)) =
           (Inr (C\<lparr>version := CONFIG_VERSION, lastUpdated := now\<rparr>), snd (writeConfig now C d))"
proof -
  let ?C = "C\<lparr>lastUpdated := now\<rparr>"
  have w: "snd (writeConfig now C d) = d\<lparr>configFile := Some (Document (config_json ?C))\<rparr>"
    using assms by (simp add: writeConfig_eq)
  have "read e now' (d\<lparr>configFile := Some (Document (config_json ?C))\<rparr>) =
        (Inr (migrate ?C), d\<lparr>configFile := Some (Document (config_json ?C))\<rparr>)"
    using assms by (intro read_valid [where j = "config_json ?C"]) (simp_all add: ToyboxConfigSchema_config_json)
  moreover have "migrate ?C = C\<lparr>version := CONFIG_VERSION, lastUpdated := now\<rparr>"
    by (simp add: migrate_def)
  ultimately show ?thesis using w by simp
qed

text \<open>
  C6. The claim: \<^verbatim>\<open>write(C)\<close> followed by \<^verbatim>\<open>read()\<close> gives back \<open>C\<close> in every field
  but \<^verbatim>\<open>lastUpdated\<close>, which is at least \<open>C\<close>'s. What holds, when the file operations
  succeed, for a configuration \<open>C\<close> whose metadata holds JSON data only: \<^verbatim>\<open>write(C)\<close>
  returns, the \<^verbatim>\<open>read()\<close> after it returns a configuration, and that configuration is \<open>C\<close>
  with \<^verbatim>\<open>lastUpdated\<close> set to the clock reading of the write and, because \<^verbatim>\<open>read\<close>
  migrates, \<^verbatim>\<open>version\<close> set to the current version: every other field (repositories with
  all their fields, activeRepository, debug, localTemplatePath, preferences) is \<open>C\<close>'s. So
  \<^verbatim>\<open>version\<close> is \<open>C\<close>'s only when \<open>C\<close> carried the current version, and \<^verbatim>\<open>lastUpdated\<close> is
  at least \<open>C\<close>'s only when \<open>C\<close>'s is not ahead of the clock.
\<close>

theorem write_then_read:
  assumes "\<not> ioFails d" and "json_metadata C"
  shows "\<exists>c'. fst (write_object now C d) = Inr (C\<lparr>obj_lastUpdated := now\<rparr>) \<and>
              read e now' (snd (write_object now C d)) = (Inr c', snd (write_object now C d)) \<and>
              config_object c' = C\<lparr>obj_version := CONFIG_VERSION, obj_lastUpdated := now\<rparr>"
proof -
  from assms(2) obtain c where c: "C = config_object c"
    using json_metadata_config_object by auto
  have w: "write_object now C d =
           (Inr (C\<lparr>obj_lastUpdated := now\<rparr>), snd (writeConfig now c d))"
    using assms(1) by (simp add: c write_object_config_object writeConfig_eq config_object_update)
  show ?thesis
  proof (intro exI [of _ "c\<lparr>version := CONFIG_VERSION, lastUpdated := now\<rparr>"] conjI)
    show "fst (write_object now C d) = Inr (C\<lparr>obj_lastUpdated := now\<rparr>)"
      by (simp add: w)
    show "read e now' (snd (write_object now C d)) =
            (Inr (c\<lparr>version := CONFIG_VERSION, lastUpdated := now\<rparr>), snd (write_object now C d))"
      using writeConfig_then_read [OF assms(1), of e now' now c] by (simp add: w)
    show "config_object (c\<lparr>version := CONFIG_VERSION, lastUpdated := now\<rparr>) =
            C\<lparr>obj_version := CONFIG_VERSION, obj_lastUpdated := now\<rparr>"
      by (simp add: c config_object_def)
  qed
qed

theorem write_then_read_witness:
  "\<not> ioFails fresh_disk \<and> json_metadata tagged_object \<and>
   (\<exists>c'. fst (write_object ''2024-03-01T00:00:00.000Z'' tagged_object fresh_disk) =
            Inr (tagged_object\<lparr>obj_lastUpdated := ''2024-03-01T00:00:00.000Z''\<rparr>) \<and>
         read env0 ''2024-03-02T00:00:00.000Z''
            (snd (write_object ''2024-03-01T00:00:00.000Z'' tagged_object fresh_disk)) =
           (Inr c', snd (write_object ''2024-03-01T00:00:00.000Z'' tagged_object fresh_disk)) \<and>
         config_object c' =
           tagged_object\<lparr>obj_version := ''1.0.0'', obj_lastUpdated := ''2024-03-01T00:00:00.000Z''\<rparr>) \<and>
   obj_version tagged_object = ''0.9.0''"
proof -
  have h: "\<not> ioFails fresh_disk" by (simp add: fresh_disk_def)
  have m: "json_metadata tagged_object" by (simp add: json_metadata_def tagged_object_def)
  have v: "obj_version tagged_object = ''0.9.0''"
    by (simp add: tagged_object_def config_object_def old_config_def)
  from write_then_read [OF h m, of "''2024-03-01T00:00:00.000Z''" env0 "''2024-03-02T00:00:00.000Z''"]
  show ?thesis using h m v by (simp add: CONFIG_VERSION_def)
qed

lemma write_object_eq:
  assumes "\<not> ioFails d"
  shows "write_object now C d =
     (case SerializeJSONProperty (config_value (C\<lparr>obj_lastUpdated := now\<rparr>)) of
        Inl e \<Rightarrow> (Inl (FailedToWrite e), d)
      | Inr None \<Rightarrow> (Inl (FailedToWrite TypeError), d)
      | Inr (Some j) \<Rightarrow> (Inr (C\<lparr>obj_lastUpdated := now\<rparr>), d\<lparr>configFile := Some (Document j)\<rparr>))"
  using assms
  by (simp add: write_object_def Let_def ToyboxConfigSchema_parse_value_def
      ToyboxConfigSchema_config_value JSON_stringify_def split: sum.splits option.splits)

lemma nan_object_written:
  "SerializeJSONProperty (config_value (nan_object\<lparr>obj_lastUpdated := ''2024-03-01T00:00:00.000Z''\<rparr>)) =
     Inr (Some (config_json nan_read))"
  by (simp add: nan_object_def nan_read_def config_value_def config_json_def repo_value_def
      repo_json_def config_object_def repo_object_def registry_a_def repo_alpha_def
      createDefaultConfig_def preferences_value_def preferences_json_def env0_def)

lemma bigint_object_written:
  "SerializeJSONProperty (config_value (bigint_object\<lparr>obj_lastUpdated := ''2024-03-01T00:00:00.000Z''\<rparr>)) =
     Inl TypeError"
  by (simp add: bigint_object_def config_value_def repo_value_def
      config_object_def repo_object_def registry_a_def repo_alpha_def
      createDefaultConfig_def preferences_value_def env0_def)

text \<open>
  The claim as stated fails on a configuration of version 0.9.0 whose \<^verbatim>\<open>lastUpdated\<close> lies
  in 2030, written when the clock reads 2024-03-01: the configuration read back has another
  version, and an earlier \<^verbatim>\<open>lastUpdated\<close>. It fails on metadata that is not JSON data: with
  \<^verbatim>\<open>{ratio: NaN, limit: Infinity, note: undefined, sizes: [undefined, -0]}\<close> the write
  returns, and what is read back is \<^verbatim>\<open>{ratio: null, limit: null, sizes: [null, 0]}\<close>; with
  \<^verbatim>\<open>{size: 1n}\<close> the write is rejected with "Failed to write configuration" and no file is
  written.
\<close>

theorem write_then_read_counterexample:
  "read env0 ''2024-03-02T00:00:00.000Z''
      (snd (write_object ''2024-03-01T00:00:00.000Z'' (config_object future_config) fresh_disk)) =
     (Inr (future_config\<lparr>version := ''1.0.0'', lastUpdated := ''2024-03-01T00:00:00.000Z''\<rparr>),
      snd (write_object ''2024-03-01T00:00:00.000Z'' (config_object future_config) fresh_disk)) \<and>
   version (future_config\<lparr>version := ''1.0.0'', lastUpdated := ''2024-03-01T00:00:00.000Z''\<rparr>)
     \<noteq> version future_config \<and>
   lastUpdated (future_config\<lparr>version := ''1.0.0'', lastUpdated := ''2024-03-01T00:00:00.000Z''\<rparr>)
     < lastUpdated future_config \<and>
   fst (write_object ''2024-03-01T00:00:00.000Z'' nan_object fresh_disk) =
     Inr (nan_object\<lparr>obj_lastUpdated := ''2024-03-01T00:00:00.000Z''\<rparr>) \<and>
   read env0 ''2024-03-02T00:00:00.000Z''
      (snd (write_object ''2024-03-01T00:00:00.000Z'' nan_object fresh_disk)) =
     (Inr nan_read, snd (write_object ''2024-03-01T00:00:00.000Z'' nan_object fresh_disk)) \<and>
   map obj_metadata (obj_repositories nan_object) =
     [Some [(''ratio'', JsNaN), (''limit'', JsInfinity), (''note'', JsUndefined),
            (''sizes'', JsArray [JsUndefined, JsNegativeZero])]] \<and>
   map obj_metadata (obj_repositories (config_object nan_read)) =
     [Some [(''ratio'', JsNull), (''limit'', JsNull), (''sizes'', JsArray [JsNull, JsNumber 0])]] \<and>
   write_object ''2024-03-01T00:00:00.000Z'' bigint_object fresh_disk =
     (Inl (FailedToWrite TypeError), fresh_disk)"
proof -
  have h: "\<not> ioFails fresh_disk" by (simp add: fresh_disk_def)
  have 1: "read env0 ''2024-03-02T00:00:00.000Z''
      (snd (write_object ''2024-03-01T00:00:00.000Z'' (config_object future_config) fresh_disk)) =
     (Inr (future_config\<lparr>version := ''1.0.0'', lastUpdated := ''2024-03-01T00:00:00.000Z''\<rparr>),
      snd (write_object ''2024-03-01T00:00:00.000Z'' (config_object future_config) fresh_disk))"
    using writeConfig_then_read [OF h, of env0 "''2024-03-02T00:00:00.000Z''"
        "''2024-03-01T00:00:00.000Z''" future_config]
    by (simp add: write_object_config_object CONFIG_VERSION_def case_prod_beta)
  have 2: "version (future_config\<lparr>version := ''1.0.0'', lastUpdated := ''2024-03-01T00:00:00.000Z''\<rparr>)
     \<noteq> version future_config"
    "lastUpdated (future_config\<lparr>version := ''1.0.0'', lastUpdated := ''2024-03-01T00:00:00.000Z''\<rparr>)
     < lastUpdated future_config"
    by (simp_all add: future_config_def createDefaultConfig_def)
  have w: "write_object ''2024-03-01T00:00:00.000Z'' nan_object fresh_disk =
     (Inr (nan_object\<lparr>obj_lastUpdated := ''2024-03-01T00:00:00.000Z''\<rparr>),
      fresh_disk\<lparr>configFile := Some (Document (config_json nan_read))\<rparr>)"
    by (simp add: write_object_eq [OF h] nan_object_written)
  have m: "migrate nan_read = nan_read"
    by (simp add: migrate_def nan_read_def registry_a_def createDefaultConfig_def CONFIG_VERSION_def)
  have 3: "read env0 ''2024-03-02T00:00:00.000Z''
      (snd (write_object ''2024-03-01T00:00:00.000Z'' nan_object fresh_disk)) =
     (Inr nan_read, snd (write_object ''2024-03-01T00:00:00.000Z'' nan_object fresh_disk))"
    using read_valid [of "fresh_disk\<lparr>configFile := Some (Document (config_json nan_read))\<rparr>"
        "config_json nan_read" nan_read env0 "''2024-03-02T00:00:00.000Z''"] h
    by (simp add: w m ToyboxConfigSchema_config_json)
  have 4: "map obj_metadata (obj_repositories nan_object) =
     [Some [(''ratio'', JsNaN), (''limit'', JsInfinity), (''note'', JsUndefined),
            (''sizes'', JsArray [JsUndefined, JsNegativeZero])]]"
    "map obj_metadata (obj_repositories (config_object nan_read)) =
     [Some [(''ratio'', JsNull), (''limit'', JsNull), (''sizes'', JsArray [JsNull, JsNumber 0])]]"
    by (simp_all add: nan_object_def nan_read_def config_object_def repo_object_def)
  have 5: "write_object ''2024-03-01T00:00:00.000Z'' bigint_object fresh_disk =
     (Inl (FailedToWrite TypeError), fresh_disk)"
    by (simp add: write_object_eq [OF h] bigint_object_written)
  from 1 2 3 4 5 w show ?thesis
    by (intro conjI) simp_all
qed

section \<open>The active repository\<close>

lemma find_name_None: "find (\<lambda>r. name r = n) rs = None \<longleftrightarrow> n \<notin> name ` set rs"
  by (auto simp: find_None_iff)

lemma find_SomeD: "find P xs = Some x \<Longrightarrow> P x \<and> x \<in> set xs"
  by (induction xs) (auto split: if_splits)

lemma findIndex_None: "findIndex P xs = None \<longleftrightarrow> (\<forall>x\<in>set xs. \<not> P x)"
  by (induction xs) auto

lemma findIndex_Some:
  "findIndex P xs = Some i \<Longrightarrow> i < length xs \<and> P (xs ! i) \<and> find P xs = Some (xs ! i)"
  by (induction xs arbitrary: i) (auto split: if_splits)

lemma find_snoc:
  "find P (xs @ [y]) = (case find P xs of Some a \<Rightarrow> Some a | None \<Rightarrow> if P y then Some y else None)"
  by (induction xs) auto

lemma find_name_filter:
  "p \<noteq> n \<Longrightarrow> find (\<lambda>r. name r = p) (filter (\<lambda>r. name r \<noteq> n) rs) = find (\<lambda>r. name r = p) rs"
  by (induction rs) auto

lemma find_isActive_filter:
  "(\<And>a. find isActive rs = Some a \<Longrightarrow> name a \<noteq> n) \<Longrightarrow>
   find isActive (filter (\<lambda>r. name r \<noteq> n) rs) = find isActive rs"
  by (induction rs) (auto split: if_splits)

lemma migrate_fields [simp]:
  "repositories (migrate c) = repositories c" "activeRepository (migrate c) = activeRepository c"
  "version (migrate c) = CONFIG_VERSION"
  by (simp_all add: migrate_def)

lemma activeRepo_cong:
  "repositories c' = repositories c \<Longrightarrow> activeRepository c' = activeRepository c \<Longrightarrow>
   activeRepo c' = activeRepo c"
  by (simp add: activeRepo_def split: option.splits)

lemma getActiveRepository_valid:
  assumes "configFile d = Some (Document j)" and "ToyboxConfigSchema j = Some c" and "\<not> ioFails d"
  shows "getActiveRepository e now d = (Inr (activeRepo c), d)"
  using assms by (simp add: getActiveRepository_def read_valid activeRepo_cong [of "migrate c" c])

text \<open>
  C5. On a valid file whose configuration has no record named \<open>n\<close>,
  \<^verbatim>\<open>setActiveRepository(n)\<close> fails with the not-found error (rethrown by \<^verbatim>\<open>update\<close> as
  "Failed to update configuration: Repository 'n' not found in configuration") and the
  file, the lock and everything else stay as they were. When a record named \<open>n\<close> exists,
  the one \<^verbatim>\<open>update\<close> call writes a configuration in which every record's \<^verbatim>\<open>isActive\<close>
  is \<open>name r = n\<close> and \<^verbatim>\<open>activeRepository\<close> is \<open>n\<close>.
\<close>

theorem setActiveRepository_spec:
  assumes "configFile d = Some (Document j)" and "ToyboxConfigSchema j = Some c"
    and "\<not> lockHeld d" and "\<not> ioFails d"
  shows "(n \<notin> name ` set (repositories c) \<longrightarrow>
            setActiveRepository e now n d = (Inl (FailedToUpdate (NotFound n)), d)) \<and>
         (n \<in> name ` set (repositories c) \<longrightarrow>
            (\<exists>c'. setActiveRepository e now n d =
                    (Inr c', d\<lparr>configFile := Some (Document (config_json c'))\<rparr>) \<and>
                  repositories c' = map (\<lambda>r. r\<lparr>isActive := (name r = n)\<rparr>) (repositories c) \<and>
                  activeRepository c' = Some n))"
proof (intro conjI impI)
  assume "n \<notin> name ` set (repositories c)"
  then have "find (\<lambda>r. name r = n) (repositories c) = None"
    by (simp add: find_name_None)
  then have "setActive_updater n (migrate c) = Inl (NotFound n)"
    by (simp add: setActive_updater_def)
  then show "setActiveRepository e now n d = (Inl (FailedToUpdate (NotFound n)), d)"
    unfolding setActiveRepository_def using assms by (intro update_valid_Inl) simp_all
next
  assume "n \<in> name ` set (repositories c)"
  then have "find (\<lambda>r. name r = n) (repositories c) \<noteq> None"
    by (simp add: find_name_None)
  then obtain cu where cu: "setActive_updater n (migrate c) = Inr cu"
    "repositories cu = map (\<lambda>r. r\<lparr>isActive := (name r = n)\<rparr>) (repositories c)"
    "activeRepository cu = Some n"
    by (auto simp: setActive_updater_def split: option.splits)
  have "setActiveRepository e now n d =
      (Inr (cu\<lparr>lastUpdated := now\<rparr>),
       d\<lparr>configFile := Some (Document (config_json (cu\<lparr>lastUpdated := now\<rparr>)))\<rparr>)"
    unfolding setActiveRepository_def using assms cu(1) by (intro update_valid_Inr) simp_all
  with cu(2,3) show "\<exists>c'. setActiveRepository e now n d =
                    (Inr c', d\<lparr>configFile := Some (Document (config_json c'))\<rparr>) \<and>
                  repositories c' = map (\<lambda>r. r\<lparr>isActive := (name r = n)\<rparr>) (repositories c) \<and>
                  activeRepository c' = Some n"
    by (intro exI [of _ "cu\<lparr>lastUpdated := now\<rparr>"]) simp
qed

text \<open>
  C7. The claim: \<^verbatim>\<open>getActiveRepository()\<close> returns the record named by the pointer when
  the pointer is set and names a record, null when it is set and names none, and the first
  record with \<^verbatim>\<open>isActive\<close> when it is unset. The code tests \<^verbatim>\<open>!config.activeRepository\<close>,
  which also holds for the empty string: what is proved is the claim for a pointer that is a
  non-empty name, and the scan for the first flagged record for a pointer that is missing
  or the empty string. The result is never an error on a valid file.
\<close>

theorem getActiveRepository_spec:
  assumes "configFile d = Some (Document j)" and "ToyboxConfigSchema j = Some c" and "\<not> ioFails d"
  shows "\<exists>result. getActiveRepository e now d = (Inr result, d) \<and>
           (\<forall>p. activeRepository c = Some p \<and> p \<noteq> [] \<and> p \<in> name ` set (repositories c) \<longrightarrow>
                (\<exists>r. result = Some r \<and> name r = p \<and> find (\<lambda>r. name r = p) (repositories c) = Some r)) \<and>
           (\<forall>p. activeRepository c = Some p \<and> p \<noteq> [] \<and> p \<notin> name ` set (repositories c) \<longrightarrow>
                result = None) \<and>
           (activeRepository c = None \<or> activeRepository c = Some [] \<longrightarrow>
                result = find isActive (repositories c))"
proof (intro exI [of _ "activeRepo c"] conjI allI impI)
  show "getActiveRepository e now d = (Inr (activeRepo c), d)"
    using assms by (rule getActiveRepository_valid)
next
  fix p assume "activeRepository c = Some p \<and> p \<noteq> [] \<and> p \<in> name ` set (repositories c)"
  then show "\<exists>r. activeRepo c = Some r \<and> name r = p \<and> find (\<lambda>r. name r = p) (repositories c) = Some r"
    by (cases "find (\<lambda>r. name r = p) (repositories c)")
       (auto simp: activeRepo_def find_name_None dest: find_SomeD)
next
  fix p assume "activeRepository c = Some p \<and> p \<noteq> [] \<and> p \<notin> name ` set (repositories c)"
  then have "find (\<lambda>r. name r = p) (repositories c) = None"
    by (simp add: find_name_None)
  with \<open>activeRepository c = Some p \<and> p \<noteq> [] \<and> p \<notin> name ` set (repositories c)\<close>
  show "activeRepo c = None"
    by (simp add: activeRepo_def)
next
  assume "activeRepository c = None \<or> activeRepository c = Some []"
  then show "activeRepo c = find isActive (repositories c)"
    by (auto simp: activeRepo_def)
qed

lemma disk_of_simps [simp]:
  "configFile (disk_of c) = Some (Document (config_json c))" "\<not> lockHeld (disk_of c)"
  "\<not> ioFails (disk_of c)"
  by (simp_all add: disk_of_def)

lemma persisted_disk_of: "persisted (disk_of c) = Some c"
  by (simp add: disk_of_def persisted_def ToyboxConfigSchema_config_json)

lemma getActiveRepository_disk_of:
  "getActiveRepository e now (disk_of c) = (Inr (activeRepo c), disk_of c)"
  by (rule getActiveRepository_valid [where j = "config_json c"])
     (simp_all add: ToyboxConfigSchema_config_json)

lemma getActiveRepository_written:
  assumes "\<not> ioFails d"
  shows "getActiveRepository e now (d\<lparr>configFile := Some (Document (config_json c))\<rparr>) =
           (Inr (activeRepo c), d\<lparr>configFile := Some (Document (config_json c))\<rparr>)"
  using assms
  by (intro getActiveRepository_valid [where j = "config_json c"])
     (simp_all add: ToyboxConfigSchema_config_json)

theorem setActiveRepository_spec_witness:
  "configFile (disk_of registry_ab) = Some (Document (config_json registry_ab)) \<and>
   ToyboxConfigSchema (config_json registry_ab) = Some registry_ab \<and>
   \<not> lockHeld (disk_of registry_ab) \<and> \<not> ioFails (disk_of registry_ab) \<and>
   ''gamma'' \<notin> name ` set (repositories registry_ab) \<and>
   setActiveRepository env0 ''2024-03-01T00:00:00.000Z'' ''gamma'' (disk_of registry_ab) =
     (Inl (FailedToUpdate (NotFound ''gamma'')), disk_of registry_ab) \<and>
   ''beta'' \<in> name ` set (repositories registry_ab) \<and>
   (\<exists>c'. setActiveRepository env0 ''2024-03-01T00:00:00.000Z'' ''beta'' (disk_of registry_ab) =
           (Inr c', (disk_of registry_ab)\<lparr>configFile := Some (Document (config_json c'))\<rparr>) \<and>
         repositories c' = [repo_alpha\<lparr>isActive := False\<rparr>, repo_beta\<lparr>isActive := True\<rparr>] \<and>
         activeRepository c' = Some ''beta'')"
proof -
  have h1: "configFile (disk_of registry_ab) = Some (Document (config_json registry_ab))" by simp
  have h2: "ToyboxConfigSchema (config_json registry_ab) = Some registry_ab"
    by (rule ToyboxConfigSchema_config_json)
  have h3: "\<not> lockHeld (disk_of registry_ab)" and h4: "\<not> ioFails (disk_of registry_ab)" by simp_all
  have g: "''gamma'' \<notin> name ` set (repositories registry_ab)"
    by (simp add: registry_ab_def repo_alpha_def repo_beta_def)
  have b: "''beta'' \<in> name ` set (repositories registry_ab)"
    by (simp add: registry_ab_def repo_alpha_def repo_beta_def)
  have m: "map (\<lambda>r. r\<lparr>isActive := (name r = ''beta'')\<rparr>) (repositories registry_ab) =
           [repo_alpha\<lparr>isActive := False\<rparr>, repo_beta\<lparr>isActive := True\<rparr>]"
    by (simp add: registry_ab_def repo_alpha_def repo_beta_def)
  note w1 = setActiveRepository_spec [OF h1 h2 h3 h4, of "''gamma''" env0 "''2024-03-01T00:00:00.000Z''"]
  note w2 = setActiveRepository_spec [OF h1 h2 h3 h4, of "''beta''" env0 "''2024-03-01T00:00:00.000Z''"]
  from w1 g have r1: "setActiveRepository env0 ''2024-03-01T00:00:00.000Z'' ''gamma'' (disk_of registry_ab) =
     (Inl (FailedToUpdate (NotFound ''gamma'')), disk_of registry_ab)" by blast
  from w2 b have r2: "\<exists>c'. setActiveRepository env0 ''2024-03-01T00:00:00.000Z'' ''beta'' (disk_of registry_ab) =
           (Inr c', (disk_of registry_ab)\<lparr>configFile := Some (Document (config_json c'))\<rparr>) \<and>
         repositories c' = map (\<lambda>r. r\<lparr>isActive := (name r = ''beta'')\<rparr>) (repositories registry_ab) \<and>
         activeRepository c' = Some ''beta''" by blast
  show ?thesis by (intro conjI h1 h2 h3 h4 g b r1 r2 [unfolded m])
qed

theorem getActiveRepository_spec_witness:
  "configFile (disk_of registry_ab) = Some (Document (config_json registry_ab)) \<and>
   ToyboxConfigSchema (config_json registry_ab) = Some registry_ab \<and>
   \<not> ioFails (disk_of registry_ab) \<and>
   activeRepository registry_ab = Some ''alpha'' \<and> ''alpha'' \<noteq> [] \<and>
   ''alpha'' \<in> name ` set (repositories registry_ab) \<and>
   getActiveRepository env0 ''2024-03-01T00:00:00.000Z'' (disk_of registry_ab) =
     (Inr (Some repo_alpha), disk_of registry_ab) \<and>
   activeRepository stale_config = Some ''ghost'' \<and> ''ghost'' \<noteq> [] \<and>
   ''ghost'' \<notin> name ` set (repositories stale_config) \<and>
   getActiveRepository env0 ''2024-03-01T00:00:00.000Z'' (disk_of stale_config) =
     (Inr None, disk_of stale_config) \<and>
   activeRepository unset_config = None \<and>
   getActiveRepository env0 ''2024-03-01T00:00:00.000Z'' (disk_of unset_config) =
     (Inr (Some repo_alpha), disk_of unset_config)"
proof -
  have h1: "configFile (disk_of registry_ab) = Some (Document (config_json registry_ab))" by simp
  have h2: "ToyboxConfigSchema (config_json registry_ab) = Some registry_ab"
    by (rule ToyboxConfigSchema_config_json)
  have h3: "\<not> ioFails (disk_of registry_ab)" by simp
  have p: "activeRepository registry_ab = Some ''alpha'' \<and> ''alpha'' \<noteq> [] \<and>
           ''alpha'' \<in> name ` set (repositories registry_ab)"
    by (simp add: registry_ab_def repo_alpha_def repo_beta_def)
  have f: "find (\<lambda>r. name r = ''alpha'') (repositories registry_ab) = Some repo_alpha"
    by (simp add: registry_ab_def repo_alpha_def)
  from getActiveRepository_spec [OF h1 h2 h3, of env0 "''2024-03-01T00:00:00.000Z''"]
  obtain result where r: "getActiveRepository env0 ''2024-03-01T00:00:00.000Z'' (disk_of registry_ab) =
      (Inr result, disk_of registry_ab)"
    and a: "\<forall>p. activeRepository registry_ab = Some p \<and> p \<noteq> [] \<and> p \<in> name ` set (repositories registry_ab) \<longrightarrow>
                (\<exists>r. result = Some r \<and> name r = p \<and> find (\<lambda>r. name r = p) (repositories registry_ab) = Some r)"
    by (elim exE conjE)
  from a [rule_format, OF p] f have "result = Some repo_alpha" by simp
  with r have g: "getActiveRepository env0 ''2024-03-01T00:00:00.000Z'' (disk_of registry_ab) =
      (Inr (Some repo_alpha), disk_of registry_ab)" by simp
  have s1: "configFile (disk_of stale_config) = Some (Document (config_json stale_config))" by simp
  have s2: "ToyboxConfigSchema (config_json stale_config) = Some stale_config"
    by (rule ToyboxConfigSchema_config_json)
  have s3: "\<not> ioFails (disk_of stale_config)" by simp
  have sp: "activeRepository stale_config = Some ''ghost'' \<and> ''ghost'' \<noteq> [] \<and>
            ''ghost'' \<notin> name ` set (repositories stale_config)"
    by (simp add: stale_config_def registry_ab_def repo_alpha_def repo_beta_def)
  from getActiveRepository_spec [OF s1 s2 s3, of env0 "''2024-03-01T00:00:00.000Z''"]
  obtain result where sr: "getActiveRepository env0 ''2024-03-01T00:00:00.000Z'' (disk_of stale_config) =
      (Inr result, disk_of stale_config)"
    and sa: "\<forall>p. activeRepository stale_config = Some p \<and> p \<noteq> [] \<and>
                p \<notin> name ` set (repositories stale_config) \<longrightarrow> result = None"
    by (elim exE conjE)
  from sa [rule_format, OF sp] sr
  have sg: "getActiveRepository env0 ''2024-03-01T00:00:00.000Z'' (disk_of stale_config) =
      (Inr None, disk_of stale_config)" by simp
  have u1: "configFile (disk_of unset_config) = Some (Document (config_json unset_config))" by simp
  have u2: "ToyboxConfigSchema (config_json unset_config) = Some unset_config"
    by (rule ToyboxConfigSchema_config_json)
  have u3: "\<not> ioFails (disk_of unset_config)" by simp
  have up: "activeRepository unset_config = None"
    by (simp add: unset_config_def)
  have uf: "find isActive (repositories unset_config) = Some repo_alpha"
    by (simp add: unset_config_def registry_ab_def repo_alpha_def)
  from getActiveRepository_spec [OF u1 u2 u3, of env0 "''2024-03-01T00:00:00.000Z''"]
  obtain result where ur: "getActiveRepository env0 ''2024-03-01T00:00:00.000Z'' (disk_of unset_config) =
      (Inr result, disk_of unset_config)"
    and ua: "activeRepository unset_config = None \<or> activeRepository unset_config = Some [] \<longrightarrow>
                result = find isActive (repositories unset_config)"
    by (elim exE conjE)
  from ua up uf ur
  have ug: "getActiveRepository env0 ''2024-03-01T00:00:00.000Z'' (disk_of unset_config) =
      (Inr (Some repo_alpha), disk_of unset_config)" by simp
  show ?thesis
    by (intro conjI h1 h2 h3 p [THEN conjunct1] p [THEN conjunct2, THEN conjunct1]
        p [THEN conjunct2, THEN conjunct2] g sp [THEN conjunct1] sp [THEN conjunct2, THEN conjunct1]
        sp [THEN conjunct2, THEN conjunct2] sg up ug)
qed

text \<open>
  The claim as stated fails when the pointer is the empty string: the registry holds one
  record, named by the empty string and not flagged, the pointer is set to that name, and
  \<^verbatim>\<open>getActiveRepository()\<close> returns null.
\<close>

theorem getActiveRepository_counterexample:
  "activeRepository nameless_config = Some [] \<and>
   find (\<lambda>r. name r = []) (repositories nameless_config) = Some nameless_repo \<and>
   getActiveRepository env0 ''2024-03-01T00:00:00.000Z'' (disk_of nameless_config) =
     (Inr None, disk_of nameless_config)"
proof -
  have "getActiveRepository env0 ''2024-03-01T00:00:00.000Z'' (disk_of nameless_config) =
      (Inr (activeRepo nameless_config), disk_of nameless_config)"
    by (rule getActiveRepository_valid [where j = "config_json nameless_config"])
       (simp_all add: ToyboxConfigSchema_config_json)
  moreover have "activeRepo nameless_config = None"
    by (simp add: activeRepo_def nameless_config_def nameless_repo_def repo_beta_def)
  ultimately show ?thesis
    by (simp add: nameless_config_def nameless_repo_def repo_beta_def)
qed

section \<open>Removing and adding repositories\<close>

lemma remove_updater_Inr:
  "remove_updater n c =
     Inr (if activeRepository c = Some n
          then (case filter (\<lambda>r. name r \<noteq> n) (repositories c) of
                  [] \<Rightarrow> c\<lparr>repositories := [], activeRepository := None\<rparr>
                | r # rs \<Rightarrow> c\<lparr>repositories := r\<lparr>isActive := True\<rparr> # rs,
                              activeRepository := Some (name r)\<rparr>)
          else c\<lparr>repositories := filter (\<lambda>r. name r \<noteq> n) (repositories c)\<rparr>)"
  by (simp add: remove_updater_def Let_def split: list.splits)

lemma removeRepository_valid:
  assumes "configFile d = Some (Document j)" and "ToyboxConfigSchema j = Some c"
    and "\<not> lockHeld d" and "\<not> ioFails d" and "remove_updater n (migrate c) = Inr cu"
  shows "removeRepository e now n d =
           (Inr (cu\<lparr>lastUpdated := now\<rparr>),
            d\<lparr>configFile := Some (Document (config_json (cu\<lparr>lastUpdated := now\<rparr>)))\<rparr>)"
  unfolding removeRepository_def using assms by (rule update_valid_Inr)



lemma removeRepository_on_disk_of:
  assumes "remove_updater n (migrate c) = Inr cu"
  shows "removeRepository e now n (disk_of c) =
           (Inr (cu\<lparr>lastUpdated := now\<rparr>),
            (disk_of c)\<lparr>configFile := Some (Document (config_json (cu\<lparr>lastUpdated := now\<rparr>)))\<rparr>)"
  using assms
  by (intro removeRepository_valid [where j = "config_json c" and c = c])
     (simp_all add: ToyboxConfigSchema_config_json)


lemma upsert_updater_empty:
  assumes "repositories c = []"
  shows "upsert_updater now repo c =
           Inr (c\<lparr>repositories := [(new_repo repo now)\<lparr>isActive := True\<rparr>],
                  activeRepository := Some (arg_name repo)\<rparr>)"
  using assms by (simp add: upsert_updater_def upsert_repos_def)

lemma upsert_updater_new:
  assumes "repositories c \<noteq> []" and "arg_name repo \<notin> name ` set (repositories c)"
  shows "upsert_updater now repo c = Inr (c\<lparr>repositories := repositories c @ [new_repo repo now]\<rparr>)"
proof -
  from assms(2) have "findIndex (\<lambda>r. name r = arg_name repo) (repositories c) = None"
    by (force simp: findIndex_None)
  moreover from assms(1) have "length (repositories c) \<noteq> 0" by simp
  ultimately show ?thesis
    by (simp add: upsert_updater_def upsert_repos_def)
qed

lemma activeRepo_first:
  assumes "repositories c = [r]" and "activeRepository c = Some (name r)" and "isActive r"
  shows "activeRepo c = Some r"
  using assms by (simp add: activeRepo_def)

lemma activeRepo_snoc:
  assumes "activeRepo c = Some a" and "repositories c' = repositories c @ [r]"
    and "activeRepository c' = activeRepository c"
  shows "activeRepo c' = Some a"
  using assms by (auto simp: activeRepo_def find_snoc split: option.splits if_splits)

lemma activeRepo_snoc_None:
  assumes "activeRepo c = None" and "repositories c' = repositories c @ [new_repo repo now]"
    and "activeRepository c' = activeRepository c"
  shows "activeRepo c' = (if resolves_to_new c repo then Some (new_repo repo now) else None)"
  using assms
  by (auto simp: activeRepo_def resolves_to_new_def find_snoc new_repo_def
      split: option.splits if_splits)

lemma upsertRepository_on:
  assumes "\<not> ioFails d"
    and "configFile d = None \<and> c0 = createDefaultConfig e now \<or>
         \<not> lockHeld d \<and> (\<exists>c. persisted d = Some c \<and> c0 = migrate c)"
    and "upsert_updater now repo c0 = Inr cu"
  shows "upsertRepository e now repo d =
           (Inr (cu\<lparr>lastUpdated := now\<rparr>),
            d\<lparr>configFile := Some (Document (config_json (cu\<lparr>lastUpdated := now\<rparr>)))\<rparr>)"
  using assms(2)
proof (elim disjE conjE exE)
  assume "configFile d = None" and "c0 = createDefaultConfig e now"
  then show ?thesis
    using assms(1,3) by (simp add: upsertRepository_def update_absent writeConfig_eq)
next
  fix c assume l: "\<not> lockHeld d" and p: "persisted d = Some c" and c0: "c0 = migrate c"
  from p obtain j where "configFile d = Some (Document j)" "ToyboxConfigSchema j = Some c"
    using persisted_SomeD by blast
  then show ?thesis
    unfolding upsertRepository_def using l assms(1,3) c0 by (intro update_valid_Inr) simp_all
qed



lemma upsertRepository_new_on_disk_of:
  assumes "repositories c \<noteq> []" and "arg_name repo \<notin> name ` set (repositories c)"
  shows "upsertRepository e now repo (disk_of c) =
           (Inr ((migrate c)\<lparr>repositories := repositories c @ [new_repo repo now],
                             lastUpdated := now\<rparr>),
            (disk_of c)\<lparr>configFile := Some (Document (config_json
              ((migrate c)\<lparr>repositories := repositories c @ [new_repo repo now],
                             lastUpdated := now\<rparr>)))\<rparr>)"
proof -
  have "upsert_updater now repo (migrate c) =
        Inr ((migrate c)\<lparr>repositories := repositories (migrate c) @ [new_repo repo now]\<rparr>)"
    using assms by (intro upsert_updater_new) simp_all
  then show ?thesis
    using upsertRepository_on [of "disk_of c" "migrate c" e now repo]
    by (simp add: persisted_disk_of)
qed


section \<open>The at-most-one-active invariant\<close>

lemma registry_inv_default: "registry_inv (createDefaultConfig e now)"
  by (simp add: registry_inv_def active_invariant_def createDefaultConfig_def)

lemma registry_inv_stamp [simp]: "registry_inv (c\<lparr>lastUpdated := now\<rparr>) = registry_inv c"
  by (simp add: registry_inv_def active_invariant_def split: option.splits)

lemma registry_inv_migrate [simp]: "registry_inv (migrate c) = registry_inv c"
  by (simp add: registry_inv_def active_invariant_def split: option.splits)

lemma filter_eq_distinct: "distinct xs \<Longrightarrow> x \<in> set xs \<Longrightarrow> filter (\<lambda>y. y = x) xs = [x]"
  by (induction xs) (auto simp: filter_empty_conv)

lemma active_names_setActive:
  "map name (filter isActive (map (\<lambda>r. r\<lparr>isActive := (name r = n)\<rparr>) rs)) =
   filter (\<lambda>y. y = n) (map name rs)"
  by (induction rs) simp_all

lemma setActive_updater_inv:
  assumes "setActive_updater n c = Inr cu" and "distinct (map name (repositories c))"
  shows "registry_inv cu"
proof -
  let ?f = "\<lambda>r. r\<lparr>isActive := (name r = n)\<rparr>"
  from assms(1) have found: "find (\<lambda>r. name r = n) (repositories c) \<noteq> None"
    and cu: "cu = c\<lparr>repositories := map ?f (repositories c), activeRepository := Some n\<rparr>"
    by (auto simp: setActive_updater_def split: option.splits)
  from found have n: "n \<in> set (map name (repositories c))"
    by (simp add: find_name_None)
  have "map name (filter isActive (map ?f (repositories c))) =
        filter (\<lambda>y. y = n) (map name (repositories c))"
    by (rule active_names_setActive)
  also have "\<dots> = [n]"
    using assms(2) n by (rule filter_eq_distinct)
  finally have a: "map name (filter isActive (map ?f (repositories c))) = [n]" .
  from arg_cong [OF a, of length]
  have "length (filter isActive (map ?f (repositories c))) = 1"
    by simp
  moreover have "map name (map ?f (repositories c)) = map name (repositories c)"
    by simp
  ultimately show ?thesis
    using a assms(2) cu by (simp add: registry_inv_def active_invariant_def comp_def)
qed

lemma filter_isActive_filter:
  "filter isActive (filter Q rs) = filter Q (filter isActive rs)"
  by (induction rs) auto

lemma remove_updater_inv:
  assumes "remove_updater n c = Inr cu" and "registry_inv c"
  shows "registry_inv cu"
proof -
  let ?rs = "filter (\<lambda>r. name r \<noteq> n) (repositories c)"
  let ?A = "filter isActive (repositories c)"
  have d: "distinct (map name ?rs)"
    using assms(2) by (simp add: registry_inv_def distinct_map_filter)
  have fA: "filter isActive ?rs = filter (\<lambda>r. name r \<noteq> n) ?A"
    by (rule filter_isActive_filter)
  have le: "length ?A \<le> 1"
    using assms(2) by (simp add: registry_inv_def active_invariant_def)
  show ?thesis
  proof (cases "activeRepository c = Some n")
    case True
    with assms(2) have "map name ?A = [n]"
      by (simp add: registry_inv_def active_invariant_def)
    then obtain a where A: "?A = [a]" and "name a = n"
      by (auto simp: map_eq_Cons_conv)
    then have none: "filter isActive ?rs = []"
      unfolding fA by simp
    show ?thesis
    proof (cases ?rs)
      case Nil
      with True assms(1) have "cu = c\<lparr>repositories := [], activeRepository := None\<rparr>"
        by (simp add: remove_updater_Inr)
      then show ?thesis by (simp add: registry_inv_def active_invariant_def)
    next
      case (Cons r rest)
      with True assms(1) have cu: "cu = c\<lparr>repositories := r\<lparr>isActive := True\<rparr> # rest,
                              activeRepository := Some (name r)\<rparr>"
        by (simp add: remove_updater_Inr)
      from none Cons have "filter isActive rest = []"
        by (simp split: if_splits)
      moreover from d Cons have "distinct (map name (r\<lparr>isActive := True\<rparr> # rest))"
        by simp
      ultimately show ?thesis
        using cu by (simp add: registry_inv_def active_invariant_def)
    qed
  next
    case False
    with assms(1) have cu: "cu = c\<lparr>repositories := ?rs\<rparr>"
      by (simp add: remove_updater_Inr)
    have "length (filter (\<lambda>r. name r \<noteq> n) ?A) \<le> length ?A"
      by (rule length_filter_le)
    with le have "length (filter isActive ?rs) \<le> 1"
      unfolding fA by linarith
    moreover have "map name (filter isActive ?rs) = [p]" if p: "activeRepository c = Some p" for p
    proof -
      from p assms(2) have "map name ?A = [p]"
        by (simp add: registry_inv_def active_invariant_def)
      then obtain a where "?A = [a]" and "name a = p"
        by (auto simp: map_eq_Cons_conv)
      moreover from p False have "p \<noteq> n" by simp
      ultimately show ?thesis unfolding fA by simp
    qed
    ultimately show ?thesis
      using cu d by (simp add: registry_inv_def active_invariant_def split: option.splits)
  qed
qed

lemma names_update:
  assumes "i < length rs" and "name m = name (rs ! i)"
  shows "map name (rs[i := m]) = map name rs"
  using assms by (simp add: map_update list_update_same_conv)

lemma active_names_update:
  assumes "i < length rs" and "name m = name (rs ! i)" and "isActive m = isActive (rs ! i)"
  shows "map name (filter isActive (rs[i := m])) = map name (filter isActive rs)"
  using assms
proof (induction rs arbitrary: i)
  case Nil
  then show ?case by simp
next
  case (Cons r rs)
  then show ?case by (cases i) auto
qed

lemma findIndex_find:
  "findIndex P xs = None \<longleftrightarrow> find P xs = None"
  by (auto simp: findIndex_None find_None_iff)

lemma upsert_updater_inv:
  assumes "upsert_updater now repo c = Inr cu" and "registry_inv c"
    and "upsert_keeps_flag (repositories c) repo"
  shows "registry_inv cu"
proof (cases "findIndex (\<lambda>r. name r = arg_name repo) (repositories c)")
  case None
  then have nf: "find (\<lambda>r. name r = arg_name repo) (repositories c) = None"
    by (simp add: findIndex_find)
  then have fresh_name: "arg_name repo \<notin> name ` set (repositories c)"
    by (simp add: find_name_None)
  show ?thesis
  proof (cases "repositories c = []")
    case True
    then have "cu = c\<lparr>repositories := [(new_repo repo now)\<lparr>isActive := True\<rparr>],
                      activeRepository := Some (arg_name repo)\<rparr>"
      using assms(1) by (simp add: upsert_updater_empty)
    then show ?thesis
      by (simp add: registry_inv_def active_invariant_def new_repo_def)
  next
    case False
    then have cu: "cu = c\<lparr>repositories := repositories c @ [new_repo repo now]\<rparr>"
      using assms(1) fresh_name by (simp add: upsert_updater_new)
    from nf False assms(3) have "\<not> isActive (new_repo repo now)"
      by (simp add: upsert_keeps_flag_def new_repo_def)
    moreover have "name (new_repo repo now) = arg_name repo"
      by (simp add: new_repo_def)
    ultimately show ?thesis
      using assms(2) cu fresh_name
      by (simp add: registry_inv_def active_invariant_def split: option.splits)
  qed
next
  case (Some i)
  let ?rs = "repositories c"
  let ?m = "merge_repo (?rs ! i) repo now"
  from Some have i: "i < length ?rs" and ni: "name (?rs ! i) = arg_name repo"
    and fi: "find (\<lambda>r. name r = arg_name repo) ?rs = Some (?rs ! i)"
    using findIndex_Some [of "\<lambda>r. name r = arg_name repo" ?rs i] by simp_all
  have nm: "name ?m = name (?rs ! i)"
    using ni by (simp add: merge_repo_def)
  have names: "map name (?rs[i := ?m]) = map name ?rs"
    by (rule names_update [OF i nm])
  show ?thesis
  proof (cases "length ?rs = 1")
    case True
    with i have i0: "i = 0" by simp
    from True obtain r where r: "?rs = [r]"
      by (cases ?rs) auto
    with i0 Some assms(1) have "cu = c\<lparr>repositories := [(merge_repo r repo now)\<lparr>isActive := True\<rparr>],
                      activeRepository := Some (arg_name repo)\<rparr>"
      by (simp add: upsert_updater_def upsert_repos_def)
    then show ?thesis
      by (simp add: registry_inv_def active_invariant_def merge_repo_def)
  next
    case False
    with Some assms(1) have cu: "cu = c\<lparr>repositories := ?rs[i := ?m]\<rparr>"
      by (simp add: upsert_updater_def upsert_repos_def)
    have "length ?rs = 1 \<or> arg_isActive repo = isActive (?rs ! i)"
      using assms(3) unfolding upsert_keeps_flag_def fi by simp
    with False have "isActive ?m = isActive (?rs ! i)"
      by (simp add: merge_repo_def)
    then have "map name (filter isActive (?rs[i := ?m])) = map name (filter isActive ?rs)"
      by (rule active_names_update [OF i nm])
    moreover from arg_cong [OF this, of length]
    have "length (filter isActive (?rs[i := ?m])) = length (filter isActive ?rs)"
      by simp
    ultimately show ?thesis
      using assms(2) cu names
      by (simp add: registry_inv_def active_invariant_def split: option.splits)
  qed
qed

lemma updaters_noent:
  "setActive_updater n x \<noteq> Inl ENOENT" "remove_updater n x \<noteq> Inl ENOENT"
  "upsert_updater now repo x \<noteq> Inl ENOENT"
  by (simp_all add: setActive_updater_def remove_updater_Inr upsert_updater_def Let_def
      split: option.splits)

lemma update_disk_inv:
  assumes inv: "disk_inv d" and noent: "\<And>x. updater x \<noteq> Inl ENOENT"
    and absent: "\<And>cu. persisted d = None \<Longrightarrow> updater (createDefaultConfig e now) = Inr cu \<Longrightarrow>
                  registry_inv cu"
    and present: "\<And>c cu. persisted d = Some c \<Longrightarrow> registry_inv c \<Longrightarrow>
                  updater (migrate c) = Inr cu \<Longrightarrow> registry_inv cu"
  shows "disk_inv (snd (update e now updater d))"
proof (cases "persisted d")
  case None
  with inv have nofile: "configFile d = None"
    by (simp add: disk_inv_def)
  from update_unpersisted [OF None, of e now updater]
  show ?thesis
  proof (elim disjE exE conjE)
    assume "configFile (snd (update e now updater d)) = configFile d"
    with nofile show ?thesis by (simp add: disk_inv_def)
  next
    assume "persisted (snd (update e now updater d)) = Some (createDefaultConfig e now)"
    then show ?thesis by (simp add: disk_inv_def registry_inv_default)
  next
    fix cu
    assume "updater (createDefaultConfig e now) = Inr cu"
      and "persisted (snd (update e now updater d)) = Some (cu\<lparr>lastUpdated := now\<rparr>)"
    with absent [OF None] show ?thesis by (simp add: disk_inv_def)
  qed
next
  case (Some c)
  with inv have c: "registry_inv c"
    by (simp add: disk_inv_def persisted_def split: option.splits)
  from update_persisted [where updater = updater and e = e and now = now, OF Some noent]
  show ?thesis
  proof (elim disjE exE conjE)
    assume "persisted (snd (update e now updater d)) = Some c"
    with c show ?thesis by (simp add: disk_inv_def)
  next
    fix cu
    assume "updater (migrate c) = Inr cu"
      and "persisted (snd (update e now updater d)) = Some (cu\<lparr>lastUpdated := now\<rparr>)"
    with present [OF Some c] show ?thesis by (simp add: disk_inv_def)
  qed
qed

lemma registry_inv_distinct: "registry_inv c \<Longrightarrow> distinct (map name (repositories c))"
  by (simp add: registry_inv_def)

lemma reachable_disk_inv: "reachable d \<Longrightarrow> disk_inv d"
proof (induction rule: reachable.induct)
  case (fresh d)
  then show ?case by (simp add: disk_inv_def)
next
  case (environment d l f)
  then show ?case by (simp add: disk_inv_def persisted_def)
next
  case (upsert d repo e now)
  show ?case
    unfolding upsertRepository_def
  proof (rule update_disk_inv [OF upsert.IH updaters_noent(3)])
    fix cu
    assume "persisted d = None" and u: "upsert_updater now repo (createDefaultConfig e now) = Inr cu"
    have "upsert_keeps_flag (repositories (createDefaultConfig e now)) repo"
      by (simp add: upsert_keeps_flag_def createDefaultConfig_def)
    with u registry_inv_default show "registry_inv cu"
      by (rule upsert_updater_inv)
  next
    fix c cu
    assume p: "persisted d = Some c" and c: "registry_inv c"
      and u: "upsert_updater now repo (migrate c) = Inr cu"
    from upsert.hyps(2) p have "upsert_keeps_flag (repositories (migrate c)) repo"
      by (simp add: registry_def)
    with u c show "registry_inv cu"
      by (intro upsert_updater_inv [of now repo "migrate c" cu]) simp_all
  qed
next
  case (setActive d e now n)
  show ?case
    unfolding setActiveRepository_def
  proof (rule update_disk_inv [OF setActive.IH updaters_noent(1)])
    fix cu
    assume "setActive_updater n (createDefaultConfig e now) = Inr cu"
    then show "registry_inv cu"
      by (rule setActive_updater_inv) (simp add: createDefaultConfig_def)
  next
    fix c cu
    assume "registry_inv c" and u: "setActive_updater n (migrate c) = Inr cu"
    then have "distinct (map name (repositories (migrate c)))"
      by (simp add: registry_inv_def)
    with u show "registry_inv cu"
      by (rule setActive_updater_inv)
  qed
next
  case (remove d e now n)
  show ?case
    unfolding removeRepository_def
  proof (rule update_disk_inv [OF remove.IH updaters_noent(2)])
    fix cu
    assume "remove_updater n (createDefaultConfig e now) = Inr cu"
    then show "registry_inv cu"
      using registry_inv_default by (rule remove_updater_inv)
  next
    fix c cu
    assume "registry_inv c" and u: "remove_updater n (migrate c) = Inr cu"
    then show "registry_inv cu"
      by (intro remove_updater_inv [of n "migrate c" cu]) simp_all
  qed
qed

text \<open>
  C2. The claim: after any sequence of \<^verbatim>\<open>upsertRepository\<close>, \<^verbatim>\<open>setActiveRepository\<close> and
  \<^verbatim>\<open>removeRepository\<close> calls from the empty configuration, with arbitrary arguments, at
  most one record has \<^verbatim>\<open>isActive\<close> and a set pointer names exactly that record.
  \<^verbatim>\<open>upsertRepository\<close> stores the \<^verbatim>\<open>isActive\<close> it is given, so this holds for the sequences
  in which every \<^verbatim>\<open>upsertRepository\<close> passes \<^verbatim>\<open>isActive = false\<close> for a name that is not
  registered (unless the registry is empty) and the stored flag for a name that is
  registered (unless it is the only record): \<open>upsert_keeps_flag\<close>. The calls may fail
  (lock held, I/O failure) and the environment may change between them.
\<close>

theorem at_most_one_active:
  assumes "reachable d" and "persisted d = Some c"
  shows "active_invariant c"
  using reachable_disk_inv [OF assms(1)] assms(2)
  by (simp add: disk_inv_def registry_inv_def persisted_def split: option.splits)

lemma after_alpha_eq:
  "after_alpha = fresh_disk\<lparr>configFile := Some (Document (config_json alpha_only))\<rparr>"
proof -
  have "upsert_updater ''2024-03-01T00:00:00.000Z'' alpha
          (createDefaultConfig env0 ''2024-03-01T00:00:00.000Z'') = Inr alpha_only"
    by (simp add: upsert_updater_empty createDefaultConfig_def alpha_only_def new_repo_def
        alpha_def repo_alpha_def)
  moreover have "alpha_only\<lparr>lastUpdated := ''2024-03-01T00:00:00.000Z''\<rparr> = alpha_only"
    by (simp add: alpha_only_def createDefaultConfig_def)
  ultimately show ?thesis
    using upsertRepository_on [of fresh_disk "createDefaultConfig env0 ''2024-03-01T00:00:00.000Z''"
        env0 "''2024-03-01T00:00:00.000Z''" alpha alpha_only]
    by (simp add: after_alpha_def fresh_disk_def)
qed

lemma after_alpha_facts:
  "\<not> ioFails after_alpha" "\<not> lockHeld after_alpha" "persisted after_alpha = Some alpha_only"
  "configFile after_alpha = Some (Document (config_json alpha_only))"
  by (simp_all add: after_alpha_eq fresh_disk_def persisted_def ToyboxConfigSchema_config_json)

lemma alpha_only_fields:
  "repositories alpha_only = [repo_alpha\<lparr>lastUsedAt := ''2024-03-01T00:00:00.000Z''\<rparr>]"
  "activeRepository alpha_only = Some ''alpha''" "migrate alpha_only = alpha_only"
  by (simp_all add: alpha_only_def migrate_def createDefaultConfig_def CONFIG_VERSION_def)

lemma upsert_second:
  assumes "arg_name repo = ''beta''"
  shows "snd (upsertRepository env0 ''2024-03-02T00:00:00.000Z'' repo after_alpha) =
         after_alpha\<lparr>configFile := Some (Document (config_json
           (alpha_only\<lparr>repositories := [repo_alpha\<lparr>lastUsedAt := ''2024-03-01T00:00:00.000Z''\<rparr>,
                                          new_repo repo ''2024-03-02T00:00:00.000Z''],
                        lastUpdated := ''2024-03-02T00:00:00.000Z''\<rparr>)))\<rparr>"
proof -
  have "upsert_updater ''2024-03-02T00:00:00.000Z'' repo alpha_only =
        Inr (alpha_only\<lparr>repositories := repositories alpha_only @
                                           [new_repo repo ''2024-03-02T00:00:00.000Z'']\<rparr>)"
    using assms by (intro upsert_updater_new) (simp_all add: alpha_only_fields repo_alpha_def)
  then show ?thesis
    using upsertRepository_on [of after_alpha alpha_only env0 "''2024-03-02T00:00:00.000Z''" repo]
    by (simp add: after_alpha_facts alpha_only_fields)
qed

lemma after_beta_eq:
  "after_beta = after_alpha\<lparr>configFile := Some (Document (config_json alpha_beta))\<rparr>"
  unfolding after_beta_def alpha_beta_def
  by (rule upsert_second) (simp add: beta_inactive_def beta_def)

lemma after_beta_facts:
  "configFile after_beta = Some (Document (config_json alpha_beta))"
  "\<not> lockHeld after_beta" "\<not> ioFails after_beta"
  by (simp_all add: after_beta_eq after_alpha_facts)

lemma alpha_beta_migrate: "migrate alpha_beta = alpha_beta"
  by (simp add: alpha_beta_def alpha_only_def migrate_def CONFIG_VERSION_def createDefaultConfig_def)

text \<open>
  The claim as stated fails on two calls from a fresh installation:
  \<^verbatim>\<open>upsertRepository(alpha)\<close>, then \<^verbatim>\<open>upsertRepository(beta)\<close> with \<^verbatim>\<open>isActive: true\<close> (what
  the initialize handler passes): both records are then flagged. It also fails when beta is
  first added with \<^verbatim>\<open>isActive: false\<close> and then upserted again with \<^verbatim>\<open>isActive: true\<close>:
  the merge stores the flag, and both records are flagged.
\<close>

theorem two_active_counterexample:
  "persisted two_active_disk = Some two_active_config \<and>
   map isActive (repositories two_active_config) = [True, True] \<and>
   \<not> active_invariant two_active_config \<and>
   persisted after_beta = Some alpha_beta \<and>
   map isActive (repositories alpha_beta) = [True, False] \<and>
   persisted (snd (upsertRepository env0 ''2024-03-03T00:00:00.000Z'' beta after_beta)) =
     Some reflagged_config \<and>
   map isActive (repositories reflagged_config) = [True, True] \<and>
   \<not> active_invariant reflagged_config"
proof -
  have a1: "persisted two_active_disk = Some two_active_config"
    unfolding two_active_disk_def two_active_config_def
    by (subst upsert_second) (simp_all add: beta_def persisted_Document)
  have a2: "map isActive (repositories two_active_config) = [True, True]"
    by (simp add: two_active_config_def new_repo_def beta_def repo_alpha_def)
  have a3: "\<not> active_invariant two_active_config"
    by (simp add: active_invariant_def two_active_config_def new_repo_def beta_def repo_alpha_def)
  have b1: "persisted after_beta = Some alpha_beta"
    by (simp add: after_beta_eq persisted_Document)
  have b2: "map isActive (repositories alpha_beta) = [True, False]"
    by (simp add: alpha_beta_def new_repo_def beta_inactive_def beta_def repo_alpha_def)
  have u: "upsert_updater ''2024-03-03T00:00:00.000Z'' beta (migrate alpha_beta) =
      Inr (alpha_beta\<lparr>repositories := [repo_alpha\<lparr>lastUsedAt := ''2024-03-01T00:00:00.000Z''\<rparr>,
                       (new_repo beta ''2024-03-02T00:00:00.000Z'')
                         \<lparr>lastUsedAt := ''2024-03-03T00:00:00.000Z''\<rparr>]\<rparr>)"
    unfolding alpha_beta_migrate
    by (simp add: upsert_updater_def upsert_repos_def alpha_beta_def merge_repo_def new_repo_def
        beta_inactive_def beta_def repo_alpha_def)
  from update_on_document [where updater = "upsert_updater ''2024-03-03T00:00:00.000Z'' beta"
      and e = env0 and now = "''2024-03-03T00:00:00.000Z''", OF after_beta_facts u]
  have b3: "persisted (snd (upsertRepository env0 ''2024-03-03T00:00:00.000Z'' beta after_beta)) =
     Some reflagged_config"
    by (simp add: upsertRepository_def reflagged_config_def)
  have b4: "map isActive (repositories reflagged_config) = [True, True]"
    by (simp add: reflagged_config_def new_repo_def beta_def repo_alpha_def)
  have b5: "\<not> active_invariant reflagged_config"
    by (simp add: active_invariant_def reflagged_config_def new_repo_def beta_def repo_alpha_def)
  show ?thesis by (intro conjI a1 a2 a3 b1 b2 b3 b4 b5)
qed

lemma switched_disk_eq:
  "switched_disk = after_alpha\<lparr>configFile := Some (Document (config_json switched_config))\<rparr>"
proof -
  let ?c2 = "alpha_only\<lparr>repositories := [repo_alpha\<lparr>lastUsedAt := ''2024-03-01T00:00:00.000Z''\<rparr>,
                                          new_repo beta_inactive ''2024-03-02T00:00:00.000Z''],
                        lastUpdated := ''2024-03-02T00:00:00.000Z''\<rparr>"
  let ?d2 = "after_alpha\<lparr>configFile := Some (Document (config_json ?c2))\<rparr>"
  have d2: "snd (upsertRepository env0 ''2024-03-02T00:00:00.000Z'' beta_inactive after_alpha) = ?d2"
    by (rule upsert_second) (simp add: beta_inactive_def beta_def)
  have m: "migrate ?c2 = ?c2"
    by (simp add: alpha_only_def migrate_def createDefaultConfig_def CONFIG_VERSION_def)
  let ?c3 = "?c2\<lparr>repositories := [repo_alpha\<lparr>lastUsedAt := ''2024-03-01T00:00:00.000Z'', isActive := False\<rparr>,
                       (new_repo beta ''2024-03-02T00:00:00.000Z'')\<lparr>isActive := True\<rparr>],
                  activeRepository := Some ''beta''\<rparr>"
  have u: "setActive_updater ''beta'' (migrate ?c2) = Inr ?c3"
    unfolding m
    by (simp add: setActive_updater_def repo_alpha_def new_repo_def beta_inactive_def beta_def)
  have s: "?c3\<lparr>lastUpdated := ''2024-03-03T00:00:00.000Z''\<rparr> = switched_config"
    by (simp add: switched_config_def)
  have "setActiveRepository env0 ''2024-03-03T00:00:00.000Z'' ''beta'' ?d2 =
      (Inr (?c3\<lparr>lastUpdated := ''2024-03-03T00:00:00.000Z''\<rparr>),
       ?d2\<lparr>configFile := Some (Document (config_json (?c3\<lparr>lastUpdated := ''2024-03-03T00:00:00.000Z''\<rparr>)))\<rparr>)"
    unfolding setActiveRepository_def
    by (rule update_valid_Inr [where j = "config_json ?c2" and c = ?c2
          and updater = "setActive_updater ''beta''" and c' = ?c3, OF _ _ _ _ u])
       (simp_all add: after_alpha_facts ToyboxConfigSchema_config_json)
  then show ?thesis
    unfolding s by (simp add: switched_disk_def d2)
qed

theorem at_most_one_active_witness:
  "reachable switched_disk \<and> persisted switched_disk = Some switched_config \<and>
   active_invariant switched_config \<and>
   map isActive (repositories switched_config) = [False, True] \<and>
   activeRepository switched_config = Some ''beta''"
proof -
  have "reachable fresh_disk"
    by (rule reachable.fresh) (simp add: fresh_disk_def)
  then have "reachable after_alpha"
    unfolding after_alpha_def
    by (rule reachable.upsert)
       (simp add: upsert_keeps_flag_def registry_def persisted_def fresh_disk_def)
  then have "reachable (snd (upsertRepository env0 ''2024-03-02T00:00:00.000Z'' beta_inactive after_alpha))"
    by (rule reachable.upsert)
       (simp add: upsert_keeps_flag_def registry_def after_alpha_facts alpha_only_fields
         beta_inactive_def beta_def repo_alpha_def)
  then have r: "reachable switched_disk"
    unfolding switched_disk_def by (rule reachable.setActive)
  have p: "persisted switched_disk = Some switched_config"
    by (simp add: switched_disk_eq persisted_Document)
  note inv = at_most_one_active [OF r p]
  have f: "map isActive (repositories switched_config) = [False, True]"
    by (simp add: switched_config_def new_repo_def beta_def repo_alpha_def)
  have a: "activeRepository switched_config = Some ''beta''"
    by (simp add: switched_config_def)
  show ?thesis by (intro conjI r p inv f a)
qed

section \<open>Timestamps of the records\<close>

lemma perform_update: "perform e now call d = update e now (call_updater now call) d"
  by (cases call)
     (simp_all add: upsertRepository_def updateRepository_def touchRepository_def
       setActiveRepository_def)

lemma call_updater_noent: "call_updater now call x \<noteq> Inl ENOENT"
  by (cases call)
     (simp_all add: updaters_noent updateRepository_updater_def touch_updater_def
       split: option.splits)

lemma timestamps_kept_refl: "timestamps_kept now call r r"
  by (simp add: timestamps_kept_def)

lemma timestamps_kept_flag: "timestamps_kept now call old new \<Longrightarrow>
    timestamps_kept now call old (new\<lparr>isActive := b\<rparr>)"
  by (simp add: timestamps_kept_def)

lemma upsert_repos_timestamps:
  assumes "i < length rs"
  shows "i < length (upsert_repos now repo rs) \<and>
         timestamps_kept now (Upsert repo) (rs ! i) (upsert_repos now repo rs ! i)"
proof (cases "findIndex (\<lambda>r. name r = arg_name repo) rs")
  case None
  with assms show ?thesis
    by (simp add: upsert_repos_def nth_append timestamps_kept_refl)
next
  case (Some j)
  then have "j < length rs" and "name (rs ! j) = arg_name repo"
    using findIndex_Some [of "\<lambda>r. name r = arg_name repo" rs j] by simp_all
  with assms Some show ?thesis
    by (cases "i = j") (simp_all add: upsert_repos_def timestamps_kept_def merge_repo_def)
qed

lemma call_updater_timestamps:
  assumes "call_updater now call c = Inr cu" and "i < length (repositories c)"
  shows "i < length (repositories cu) \<and>
         timestamps_kept now call (repositories c ! i) (repositories cu ! i)"
proof (cases call)
  case (Upsert repo)
  let ?rs = "upsert_repos now repo (repositories c)"
  from upsert_repos_timestamps [OF assms(2), of now repo]
  have i: "i < length ?rs" and t: "timestamps_kept now (Upsert repo) (repositories c ! i) (?rs ! i)"
    by simp_all
  show ?thesis
  proof (cases "length ?rs = 1")
    case True
    with i have "i = 0" by simp
    moreover from True assms(1) Upsert
    have "repositories cu = ?rs[0 := (?rs ! 0)\<lparr>isActive := True\<rparr>]"
      by (auto simp: upsert_updater_def Let_def)
    ultimately show ?thesis
      using i t Upsert by (simp add: timestamps_kept_flag)
  next
    case False
    with assms(1) Upsert have "repositories cu = ?rs"
      by (auto simp: upsert_updater_def Let_def)
    with i t Upsert show ?thesis by simp
  qed
next
  case (Update repoName updates)
  show ?thesis
  proof (cases "findIndex (\<lambda>r. name r = repoName) (repositories c)")
    case None
    with assms Update show ?thesis
      by (auto simp: updateRepository_updater_def timestamps_kept_refl)
  next
    case (Some j)
    then have "j < length (repositories c)" and "name (repositories c ! j) = repoName"
      using findIndex_Some [of "\<lambda>r. name r = repoName" "repositories c" j] by simp_all
    moreover from Some assms(1) Update
    have "repositories cu = (repositories c)[j := assign_repo (repositories c ! j) updates now]"
      by (auto simp: updateRepository_updater_def)
    ultimately show ?thesis
      using assms(2) Update
      by (cases "i = j"; cases "upd_createdAt updates")
         (simp_all add: timestamps_kept_def assign_repo_def)
  qed
next
  case (Touch repoName)
  show ?thesis
  proof (cases "findIndex (\<lambda>r. name r = repoName) (repositories c)")
    case None
    with assms Touch show ?thesis
      by (auto simp: touch_updater_def timestamps_kept_refl)
  next
    case (Some j)
    then have "j < length (repositories c)"
      using findIndex_Some [of "\<lambda>r. name r = repoName" "repositories c" j] by simp
    moreover from Some assms(1) Touch
    have "repositories cu = (repositories c)[j := (repositories c ! j)\<lparr>lastUsedAt := now\<rparr>]"
      by (auto simp: touch_updater_def)
    ultimately show ?thesis
      using assms(2) by (cases "i = j") (simp_all add: timestamps_kept_def)
  qed
next
  case (SetActive repoName)
  with assms(1) have "repositories cu =
      map (\<lambda>r. r\<lparr>isActive := (name r = repoName)\<rparr>) (repositories c)"
    by (auto simp: setActive_updater_def split: option.splits)
  with assms(2) show ?thesis
    by (simp add: timestamps_kept_def)
qed

text \<open>
  C8. The claim: no registry operation (\<^verbatim>\<open>upsertRepository\<close>, \<^verbatim>\<open>updateRepository\<close>,
  \<^verbatim>\<open>touchRepository\<close>, \<^verbatim>\<open>setActiveRepository\<close>) lowers the \<^verbatim>\<open>createdAt\<close> or the
  \<^verbatim>\<open>lastUsedAt\<close> of a record that is there before and after. What holds for a record at
  position \<open>i\<close> of the list, whether the call succeeds or fails: \<^verbatim>\<open>lastUsedAt\<close> keeps its
  value or becomes the clock reading of the call, so it does not decrease when the clock
  is not behind the stored value; \<^verbatim>\<open>createdAt\<close> keeps its value unless the record is the one
  the call names and the caller supplies a \<^verbatim>\<open>createdAt\<close> (always with
  \<^verbatim>\<open>upsertRepository\<close>, optionally with \<^verbatim>\<open>updateRepository\<close>), which then replaces it.
\<close>

theorem timestamps_not_rolled_back:
  assumes "persisted d = Some c" and "persisted (snd (perform e now call d)) = Some c'"
    and "i < length (repositories c)"
  shows "i < length (repositories c') \<and>
         timestamps_kept now call (repositories c ! i) (repositories c' ! i) \<and>
         (lastUsedAt (repositories c ! i) \<le> now \<longrightarrow>
            lastUsedAt (repositories c ! i) \<le> lastUsedAt (repositories c' ! i)) \<and>
         (supplied_createdAt call = None \<or> name (repositories c ! i) \<noteq> target call \<longrightarrow>
            createdAt (repositories c' ! i) = createdAt (repositories c ! i))"
proof -
  have k: "i < length (repositories c') \<and>
           timestamps_kept now call (repositories c ! i) (repositories c' ! i)"
    using update_persisted [where updater = "call_updater now call" and e = e and now = now,
        OF assms(1) call_updater_noent]
  proof (elim disjE exE conjE)
    assume "persisted (snd (update e now (call_updater now call) d)) = Some c"
    with assms(2) have "c' = c" by (simp add: perform_update)
    with assms(3) show ?thesis by (simp add: timestamps_kept_refl)
  next
    fix cu
    assume u: "call_updater now call (migrate c) = Inr cu"
      and "persisted (snd (update e now (call_updater now call) d)) = Some (cu\<lparr>lastUpdated := now\<rparr>)"
    with assms(2) have "c' = cu\<lparr>lastUpdated := now\<rparr>" by (simp add: perform_update)
    with call_updater_timestamps [OF u, of i] assms(3) show ?thesis by simp
  qed
  then show ?thesis
    by (auto simp: timestamps_kept_def)
qed

lemma update_after_alpha:
  assumes "updater alpha_only = Inr cu"
  shows "persisted (snd (update env0 now updater after_alpha)) = Some (cu\<lparr>lastUpdated := now\<rparr>)"
proof -
  from assms have "updater (migrate alpha_only) = Inr cu"
    by (simp add: alpha_only_fields)
  from update_valid_Inr [where updater = updater and c' = cu and e = env0 and now = now,
      OF after_alpha_facts(4) ToyboxConfigSchema_config_json after_alpha_facts(2)
        after_alpha_facts(1) this]
  show ?thesis by (simp add: persisted_Document)
qed

text \<open>
  The claim as stated fails on the record alpha, created 2024-01-01 and last used
  2024-03-01. \<^verbatim>\<open>upsertRepository\<close> of alpha with \<^verbatim>\<open>createdAt\<close> 2023-06-01, and
  \<^verbatim>\<open>updateRepository\<close> of alpha with that \<^verbatim>\<open>createdAt\<close> among the fields, each put the
  stored \<^verbatim>\<open>createdAt\<close> back to 2023-06-01. \<^verbatim>\<open>touchRepository\<close> of alpha when the clock
  reads 2024-02-01 puts \<^verbatim>\<open>lastUsedAt\<close> back to 2024-02-01.
\<close>

theorem timestamps_rolled_back_counterexample:
  "persisted after_alpha = Some alpha_only \<and>
   createdAt (repositories alpha_only ! 0) = ''2024-01-01T00:00:00.000Z'' \<and>
   lastUsedAt (repositories alpha_only ! 0) = ''2024-03-01T00:00:00.000Z'' \<and>
   persisted (snd (upsertRepository env0 ''2024-03-02T00:00:00.000Z'' alpha_earlier after_alpha)) =
     Some rolled_back_config \<and>
   persisted (snd (updateRepository env0 ''2024-03-02T00:00:00.000Z'' ''alpha'' earlier_createdAt
                     after_alpha)) = Some rolled_back_config \<and>
   createdAt (repositories rolled_back_config ! 0) = ''2023-06-01T00:00:00.000Z'' \<and>
   createdAt (repositories rolled_back_config ! 0) < createdAt (repositories alpha_only ! 0) \<and>
   persisted (snd (touchRepository env0 ''2024-02-01T00:00:00.000Z'' ''alpha'' after_alpha)) =
     Some touched_early_config \<and>
   lastUsedAt (repositories touched_early_config ! 0) = ''2024-02-01T00:00:00.000Z'' \<and>
   lastUsedAt (repositories touched_early_config ! 0) < lastUsedAt (repositories alpha_only ! 0)"
proof -
  have u: "upsert_updater ''2024-03-02T00:00:00.000Z'' alpha_earlier alpha_only =
        Inr (alpha_only\<lparr>repositories := [repo_alpha\<lparr>createdAt := ''2023-06-01T00:00:00.000Z'',
                                    lastUsedAt := ''2024-03-02T00:00:00.000Z''\<rparr>],
                        activeRepository := Some ''alpha''\<rparr>)"
    by (simp add: upsert_updater_def upsert_repos_def alpha_only_fields merge_repo_def
        alpha_earlier_def alpha_def repo_alpha_def)
  have "alpha_only\<lparr>repositories := [repo_alpha\<lparr>createdAt := ''2023-06-01T00:00:00.000Z'',
                                    lastUsedAt := ''2024-03-02T00:00:00.000Z''\<rparr>],
                        activeRepository := Some ''alpha'',
                        lastUpdated := ''2024-03-02T00:00:00.000Z''\<rparr> = rolled_back_config"
    by (simp add: rolled_back_config_def alpha_only_def)
  with update_after_alpha [where updater = "upsert_updater ''2024-03-02T00:00:00.000Z'' alpha_earlier"
      and now = "''2024-03-02T00:00:00.000Z''", OF u]
  have p: "persisted (snd (upsertRepository env0 ''2024-03-02T00:00:00.000Z'' alpha_earlier after_alpha)) =
     Some rolled_back_config"
    by (simp add: upsertRepository_def)
  have v: "updateRepository_updater ''2024-03-02T00:00:00.000Z'' ''alpha'' earlier_createdAt alpha_only =
        Inr (alpha_only\<lparr>repositories := [repo_alpha\<lparr>createdAt := ''2023-06-01T00:00:00.000Z'',
                                    lastUsedAt := ''2024-03-02T00:00:00.000Z''\<rparr>]\<rparr>)"
    by (simp add: updateRepository_updater_def alpha_only_fields assign_repo_def
        earlier_createdAt_def repo_alpha_def)
  from update_after_alpha [where updater = "updateRepository_updater ''2024-03-02T00:00:00.000Z''
      ''alpha'' earlier_createdAt" and now = "''2024-03-02T00:00:00.000Z''", OF v]
  have q: "persisted (snd (updateRepository env0 ''2024-03-02T00:00:00.000Z'' ''alpha'' earlier_createdAt
                     after_alpha)) = Some rolled_back_config"
    by (simp add: updateRepository_def rolled_back_config_def)
  have w: "touch_updater ''2024-02-01T00:00:00.000Z'' ''alpha'' alpha_only =
        Inr (alpha_only\<lparr>repositories := [repo_alpha\<lparr>lastUsedAt := ''2024-02-01T00:00:00.000Z''\<rparr>]\<rparr>)"
    by (simp add: touch_updater_def alpha_only_fields repo_alpha_def)
  from update_after_alpha [where updater = "touch_updater ''2024-02-01T00:00:00.000Z'' ''alpha''"
      and now = "''2024-02-01T00:00:00.000Z''", OF w]
  have r: "persisted (snd (touchRepository env0 ''2024-02-01T00:00:00.000Z'' ''alpha'' after_alpha)) =
     Some touched_early_config"
    by (simp add: touchRepository_def touched_early_config_def)
  have c1: "createdAt (repositories alpha_only ! 0) = ''2024-01-01T00:00:00.000Z''"
    by (simp add: alpha_only_fields repo_alpha_def)
  have l1: "lastUsedAt (repositories alpha_only ! 0) = ''2024-03-01T00:00:00.000Z''"
    by (simp add: alpha_only_fields)
  have c2: "createdAt (repositories rolled_back_config ! 0) = ''2023-06-01T00:00:00.000Z''"
    by (simp add: rolled_back_config_def)
  have l2: "lastUsedAt (repositories touched_early_config ! 0) = ''2024-02-01T00:00:00.000Z''"
    by (simp add: touched_early_config_def)
  have lt: "createdAt (repositories rolled_back_config ! 0) < createdAt (repositories alpha_only ! 0)"
    unfolding c1 c2 by simp
  have lt2: "lastUsedAt (repositories touched_early_config ! 0) < lastUsedAt (repositories alpha_only ! 0)"
    unfolding l1 l2 by simp
  show ?thesis by (intro conjI after_alpha_facts(3) c1 l1 p q c2 lt r l2 lt2)
qed

theorem timestamps_not_rolled_back_witness:
  "persisted after_alpha = Some alpha_only \<and>
   persisted (snd (perform env0 ''2024-03-02T00:00:00.000Z'' (Touch ''alpha'') after_alpha)) =
     Some touched_config \<and>
   (0::nat) < length (repositories alpha_only) \<and>
   0 < length (repositories touched_config) \<and>
   lastUsedAt (repositories alpha_only ! 0) \<le> ''2024-03-02T00:00:00.000Z'' \<and>
   supplied_createdAt (Touch ''alpha'') = None \<and>
   lastUsedAt (repositories alpha_only ! 0) \<le> lastUsedAt (repositories touched_config ! 0) \<and>
   createdAt (repositories touched_config ! 0) = createdAt (repositories alpha_only ! 0)"
proof -
  have u: "touch_updater ''2024-03-02T00:00:00.000Z'' ''alpha'' alpha_only =
        Inr (alpha_only\<lparr>repositories := [repo_alpha\<lparr>lastUsedAt := ''2024-03-02T00:00:00.000Z''\<rparr>]\<rparr>)"
    by (simp add: touch_updater_def alpha_only_fields repo_alpha_def)
  from update_after_alpha [where updater = "touch_updater ''2024-03-02T00:00:00.000Z'' ''alpha''"
      and now = "''2024-03-02T00:00:00.000Z''", OF u]
  have p: "persisted (snd (perform env0 ''2024-03-02T00:00:00.000Z'' (Touch ''alpha'') after_alpha)) =
     Some touched_config"
    by (simp add: touchRepository_def touched_config_def)
  have i: "(0::nat) < length (repositories alpha_only)"
    by (simp add: alpha_only_fields)
  have le: "lastUsedAt (repositories alpha_only ! 0) \<le> ''2024-03-02T00:00:00.000Z''"
    by (simp add: alpha_only_fields)
  have s: "supplied_createdAt (Touch ''alpha'') = None" by simp
  note w = timestamps_not_rolled_back [OF after_alpha_facts(3) p i]
  from w have j: "0 < length (repositories touched_config)" by (rule conjunct1)
  from w le have l: "lastUsedAt (repositories alpha_only ! 0) \<le> lastUsedAt (repositories touched_config ! 0)"
    by (elim conjE) (erule (1) mp)
  from w s have c: "createdAt (repositories touched_config ! 0) = createdAt (repositories alpha_only ! 0)"
    by (elim conjE) (erule mp, rule disjI1)
  show ?thesis by (intro conjI after_alpha_facts(3) p i j le s l c)
qed

section \<open>Concurrent calls of update\<close>

text \<open>
  A call that runs alone, from a state with no call in flight, is \<^verbatim>\<open>update\<close> as defined
  above: four steps bring it to its end, with the result and the file of \<^verbatim>\<open>update\<close>.
\<close>

lemma writeConfig_not_ENOENT: "fst (writeConfig now c d) \<noteq> Inl ENOENT"
  by (simp add: writeConfig_def Let_def ToyboxConfigSchema_parse_def split: option.splits)

lemma read_not_ENOENT: "fst (read e now d) \<noteq> Inl ENOENT"
  using writeConfig_not_ENOENT [of now "createDefaultConfig e now"]
  by (auto simp add: read_def read_try_def split: prod.splits sum.splits option.splits if_splits)

lemma write_steps:
  assumes "tempFile s = None"
  shows "run e ca cb (CallA # CallA # schedule) (AtWriteFile release caught c, b, s) =
         run e ca cb schedule
           (Returned (case fst (writeConfig (clock ca) c (files s)) of Inl err \<Rightarrow> Inl (if caught then err else FailedToUpdate err) | Inr c \<Rightarrow> Inr c), b,
            s\<lparr>files := snd (writeConfig (clock ca) c (files s)),
              lockOwned := (if release then False else lockOwned s)\<rparr>)"
  using assms
  by (cases s) (simp add: writeConfig_def Let_def ToyboxConfigSchema_parse_def thrown_def finish_def 
      split: option.splits)

lemma returned_steps:
  "run e ca cb (CallA # schedule) (Returned r, b, s) = run e ca cb schedule (Returned r, b, s)"
  by simp

lemma solo_update:
  "run e \<lparr>clock = now, updater_of = u\<rparr> cb [CallA, CallA, CallA, CallA] (AtLock, b, idle d) =
     (Returned (fst (update e now u d)), b, idle (snd (update e now u d)))"
proof (cases "lockfile_lock d")
  case (Inl err)
  show ?thesis
  proof (cases "err = ENOENT")
    case True
    show ?thesis
    proof (cases "u (createDefaultConfig e now)")
      case (Inl err')
      with True \<open>lockfile_lock d = Inl err\<close> show ?thesis
        by (simp add: idle_def update_def update_try_def thrown_def finish_def)
    next
      case (Inr c)
      have "run e \<lparr>clock = now, updater_of = u\<rparr> cb [CallA, CallA, CallA, CallA] (AtLock, b, idle d) =
            run e \<lparr>clock = now, updater_of = u\<rparr> cb [CallA, CallA, CallA] (AtWriteFile False True c, b, idle d)"
        using True Inr \<open>lockfile_lock d = Inl err\<close> by (simp add: thrown_def idle_def)
      also have "\<dots> = run e \<lparr>clock = now, updater_of = u\<rparr> cb [CallA]
           (Returned (case fst (writeConfig now c d) of Inl err \<Rightarrow> Inl (if True then err else FailedToUpdate err) | Inr c \<Rightarrow> Inr c), b,
            (idle d)\<lparr>files := snd (writeConfig now c d), lockOwned := False\<rparr>)"
        using write_steps [of "idle d" e "\<lparr>clock = now, updater_of = u\<rparr>" cb "[CallA]" False True c b]
        by (simp add: idle_def)
      finally show ?thesis
        using True Inr \<open>lockfile_lock d = Inl err\<close>
        by (simp add: idle_def update_def update_try_def  split: sum.splits)
    qed
  next
    case False
    with Inl show ?thesis
      by (simp add: idle_def update_def update_try_def thrown_def finish_def)
  qed
next
  case (Inr x)
  let ?ca = "\<lparr>clock = now, updater_of = u\<rparr>"
  let ?s1 = "(idle d)\<lparr>lockOwned := True\<rparr>"
  obtain r d1 where rd: "read e now d = (r, d1)"
    by (cases "read e now d")
  have lock: "run e ?ca cb [CallA, CallA, CallA, CallA] (AtLock, b, idle d) = run e ?ca cb [CallA, CallA, CallA] (AtRead, b, ?s1)"
    using Inr by (simp add: idle_def)
  show ?thesis
  proof (cases r)
    case (Inl err)
    with rd read_not_ENOENT [of e now d] have "err \<noteq> ENOENT"
      by simp
    with Inl rd Inr lock show ?thesis
      by (simp add: idle_def update_def update_try_def thrown_def finish_def)
  next
    case cur: (Inr currentConfig)
    show ?thesis
    proof (cases "u currentConfig")
      case (Inr c)
      have "run e ?ca cb [CallA, CallA, CallA] (AtRead, b, ?s1) =
            run e ?ca cb [CallA, CallA] (AtWriteFile True False c, b, ?s1\<lparr>files := d1\<rparr>)"
        using rd cur Inr by (simp add: idle_def)
      also have "\<dots> = run e ?ca cb []
           (Returned (case fst (writeConfig now c d1) of Inl err \<Rightarrow> Inl (if False then err else FailedToUpdate err) | Inr c \<Rightarrow> Inr c), b,
            ?s1\<lparr>files := snd (writeConfig now c d1), lockOwned := False\<rparr>)"
        using write_steps [of "?s1\<lparr>files := d1\<rparr>" e ?ca cb "[]" True False c b]
        by (simp add: idle_def)
      finally show ?thesis
        using rd cur Inr \<open>lockfile_lock d = Inr x\<close> lock writeConfig_not_ENOENT [of now c d1]
        by (cases "writeConfig now c d1")
           (simp add: idle_def update_def update_try_def  split: sum.splits)
    next
      case uerr: (Inl err)
      show ?thesis
      proof (cases "err = ENOENT")
        case False
        with uerr rd cur \<open>lockfile_lock d = Inr x\<close> lock show ?thesis
          by (simp add: idle_def update_def update_try_def thrown_def finish_def)
      next
        case True
        show ?thesis
        proof (cases "u (createDefaultConfig e now)")
          case (Inl err')
          with True uerr rd cur \<open>lockfile_lock d = Inr x\<close> lock show ?thesis
            by (simp add: idle_def update_def update_try_def thrown_def finish_def)
        next
          case (Inr c)
          have "run e ?ca cb [CallA, CallA, CallA] (AtRead, b, ?s1) =
                run e ?ca cb [CallA, CallA] (AtWriteFile True True c, b, ?s1\<lparr>files := d1\<rparr>)"
            using rd cur uerr True Inr by (simp add: idle_def thrown_def)
          also have "\<dots> = run e ?ca cb []
               (Returned (case fst (writeConfig now c d1) of Inl err \<Rightarrow> Inl (if True then err else FailedToUpdate err) | Inr c \<Rightarrow> Inr c), b,
                ?s1\<lparr>files := snd (writeConfig now c d1), lockOwned := False\<rparr>)"
            using write_steps [of "?s1\<lparr>files := d1\<rparr>" e ?ca cb "[]" True True c b]
            by (simp add: idle_def)
          finally show ?thesis
            using rd cur uerr True Inr \<open>lockfile_lock d = Inr x\<close> lock
            by (cases "writeConfig now c d1")
               (simp add: idle_def update_def update_try_def  split: sum.splits)
        qed
      qed
    qed
  qed
qed

lemma step_lock_absent:
  assumes "configFile (files s) = None" and "u (createDefaultConfig e now) = Inr c"
  shows "step e now u AtLock s = (AtWriteFile False True c, s)"
  using assms by (simp add: lockfile_lock_def thrown_def)

lemma step_lock_free:
  assumes "configFile (files s) = Some t" and "\<not> lockHeld (files s)" and "\<not> lockOwned s"
  shows "step e now u AtLock s = (AtRead, s\<lparr>lockOwned := True\<rparr>)"
  using assms by (simp add: lockfile_lock_def)

lemma step_read:
  assumes "configFile (files s) = Some (Document (config_json c))" and "\<not> ioFails (files s)"
    and "u (migrate c) = Inr c'"
  shows "step e now u AtRead s = (AtWriteFile True False c', s)"
  using assms read_valid [of "files s" "config_json c" c e now]
  by (simp add: ToyboxConfigSchema_config_json)

lemma step_writeFile:
  assumes "\<not> ioFails (files s)"
  shows "step e now u (AtWriteFile release caught c) s =
           (AtRename release caught (c\<lparr>lastUpdated := now\<rparr>),
            s\<lparr>tempFile := Some (Document (config_json (c\<lparr>lastUpdated := now\<rparr>)))\<rparr>)"
  using assms by (simp add: Let_def ToyboxConfigSchema_parse_config_json JSON_stringify_def)

lemma step_rename:
  assumes "tempFile s = Some t" and "\<not> ioFails (files s)"
  shows "step e now u (AtRename release caught c) s =
           (Returned (Inr c),
            s\<lparr>files := (files s)\<lparr>configFile := Some t\<rparr>, tempFile := None,
              lockOwned := (if release then False else lockOwned s)\<rparr>)"
  using assms by (cases s) (simp add: finish_def)

lemma step_rename_missing:
  assumes "tempFile s = None"
  shows "step e now u (AtRename release True c) s =
           (Returned (Inl (FailedToWrite ENOENT)),
            s\<lparr>lockOwned := (if release then False else lockOwned s)\<rparr>)"
  using assms by (cases s) (simp add: finish_def thrown_def)

lemma first_upserts:
  "upsert_updater ''2024-03-01T00:00:00.000Z'' alpha
     (createDefaultConfig env0 ''2024-03-01T00:00:00.000Z'') = Inr alpha_only"
  "upsert_updater ''2024-03-02T00:00:00.000Z'' beta_inactive
     (createDefaultConfig env0 ''2024-03-02T00:00:00.000Z'') = Inr beta_only"
  "alpha_only\<lparr>lastUpdated := ''2024-03-01T00:00:00.000Z''\<rparr> = alpha_only"
  "beta_only\<lparr>lastUpdated := ''2024-03-02T00:00:00.000Z''\<rparr> = beta_only"
  by (simp_all add: upsert_updater_empty createDefaultConfig_def alpha_only_def beta_only_def
      new_repo_def alpha_def repo_alpha_def beta_inactive_def beta_def)

lemma getRepositories_written:
  assumes "\<not> ioFails d"
  shows "getRepositories e now (d\<lparr>configFile := Some (Document (config_json c))\<rparr>) =
           (Inr (repositories c), d\<lparr>configFile := Some (Document (config_json c))\<rparr>)"
  using assms
    read_valid [of "d\<lparr>configFile := Some (Document (config_json c))\<rparr>" "config_json c" c e now]
  by (simp add: getRepositories_def ToyboxConfigSchema_config_json)

lemma race_lost_update:
  "run env0 call_alpha call_beta [CallA, CallB, CallA, CallA, CallB, CallB]
     (AtLock, AtLock, idle fresh_disk) =
   (Returned (Inr alpha_only), Returned (Inr beta_only), idle (disk_of beta_only))"
  by (simp del: step.simps add: call_alpha_def call_beta_def upsertRepository_call_def idle_def
      fresh_disk_def disk_of_def step_lock_absent first_upserts step_writeFile step_rename)

lemma race_rejected:
  "run env0 call_alpha call_beta [CallA, CallB, CallA, CallB, CallA, CallB]
     (AtLock, AtLock, idle fresh_disk) =
   (Returned (Inr alpha_only), Returned (Inl (FailedToWrite ENOENT)), idle (disk_of beta_only))"
  by (simp del: step.simps add: call_alpha_def call_beta_def upsertRepository_call_def idle_def
      fresh_disk_def disk_of_def step_lock_absent first_upserts step_writeFile step_rename
      step_rename_missing)

lemma upsert_beta_second:
  "upsert_updater ''2024-03-02T00:00:00.000Z'' beta_inactive (migrate alpha_only) =
     Inr (alpha_beta\<lparr>lastUpdated := ''2024-03-01T00:00:00.000Z''\<rparr>)"
  "alpha_beta\<lparr>lastUpdated := ''2024-03-02T00:00:00.000Z''\<rparr> = alpha_beta"
proof -
  have "upsert_updater ''2024-03-02T00:00:00.000Z'' beta_inactive alpha_only =
        Inr (alpha_only\<lparr>repositories := repositories alpha_only @
                          [new_repo beta_inactive ''2024-03-02T00:00:00.000Z'']\<rparr>)"
    by (intro upsert_updater_new)
       (simp_all add: alpha_only_fields repo_alpha_def beta_inactive_def beta_def)
  moreover have "alpha_only\<lparr>repositories := repositories alpha_only @
                          [new_repo beta_inactive ''2024-03-02T00:00:00.000Z'']\<rparr> =
                 alpha_beta\<lparr>lastUpdated := ''2024-03-01T00:00:00.000Z''\<rparr>"
    by (simp add: alpha_beta_def alpha_only_def createDefaultConfig_def)
  ultimately show "upsert_updater ''2024-03-02T00:00:00.000Z'' beta_inactive (migrate alpha_only) =
     Inr (alpha_beta\<lparr>lastUpdated := ''2024-03-01T00:00:00.000Z''\<rparr>)"
    by (simp only: alpha_only_fields(3))
  show "alpha_beta\<lparr>lastUpdated := ''2024-03-02T00:00:00.000Z''\<rparr> = alpha_beta"
    by (simp add: alpha_beta_def)
qed

lemma one_after_the_other:
  "run env0 call_alpha call_beta [CallA, CallA, CallA, CallB, CallB, CallB, CallB]
     (AtLock, AtLock, idle fresh_disk) =
   (Returned (Inr alpha_only), Returned (Inr alpha_beta), idle (disk_of alpha_beta))"
  by (simp del: step.simps add: call_alpha_def call_beta_def upsertRepository_call_def idle_def
      fresh_disk_def disk_of_def step_lock_absent first_upserts step_writeFile step_rename
      step_lock_free step_read [where c = alpha_only] upsert_beta_second)

lemma after_beta_disk_of: "after_beta = disk_of alpha_beta"
  by (simp add: after_beta_eq after_alpha_eq fresh_disk_def disk_of_def)

text \<open>
  C9. The claim: two concurrent calls of \<^verbatim>\<open>update\<close> on the same file do not interleave, the
  second takes the lock only after the first has released it and reads what the first has
  written; two concurrent calls that each append one repository both succeed, and
  \<^verbatim>\<open>getRepositories()\<close> then contains both. \<^verbatim>\<open>update\<close> locks the configuration file itself,
  and \<^verbatim>\<open>lockfile.lock\<close> rejects with ENOENT as long as that file does not exist; the
  \<^verbatim>\<open>catch\<close> of \<^verbatim>\<open>update\<close> then applies the updater to a default configuration and writes
  the result, holding no lock. Evaluated on a fresh installation, with the calls
  \<^verbatim>\<open>upsertRepository(alpha)\<close> and \<^verbatim>\<open>upsertRepository(beta)\<close> both past \<^verbatim>\<open>lockfile.lock\<close> before
  either writes. If the first call finishes its \<^verbatim>\<open>write\<close> before the second starts its own,
  both calls return and the file holds beta alone. If the two go step by step, both write
  the same temporary file, the first \<^verbatim>\<open>rename\<close> installs the document of the second call,
  and the second \<^verbatim>\<open>rename\<close> finds no temporary file: the first call returns, the second is
  rejected with "Failed to write configuration", and the file again holds beta alone. In
  both runs \<^verbatim>\<open>getRepositories()\<close> returns one record. One call after the other (the run of
  the two calls in turn, and \<^verbatim>\<open>upsertRepository\<close> twice), both records are there.
\<close>

theorem first_updates_race:
  "run env0 call_alpha call_beta [CallA, CallB, CallA, CallA, CallB, CallB]
     (AtLock, AtLock, idle fresh_disk) =
     (Returned (Inr alpha_only), Returned (Inr beta_only), idle (disk_of beta_only)) \<and>
   run env0 call_alpha call_beta [CallA, CallB, CallA, CallB, CallA, CallB]
     (AtLock, AtLock, idle fresh_disk) =
     (Returned (Inr alpha_only), Returned (Inl (FailedToWrite ENOENT)), idle (disk_of beta_only)) \<and>
   fst (getRepositories env0 ''2024-03-03T00:00:00.000Z'' (disk_of beta_only)) =
     Inr [(new_repo beta_inactive ''2024-03-02T00:00:00.000Z'')\<lparr>isActive := True\<rparr>] \<and>
   run env0 call_alpha call_beta [CallA, CallA, CallA, CallB, CallB, CallB, CallB]
     (AtLock, AtLock, idle fresh_disk) =
     (Returned (Inr alpha_only), Returned (Inr alpha_beta), idle after_beta) \<and>
   snd (upsertRepository env0 ''2024-03-02T00:00:00.000Z'' beta_inactive
     (snd (upsertRepository env0 ''2024-03-01T00:00:00.000Z'' alpha fresh_disk))) = after_beta \<and>
   fst (getRepositories env0 ''2024-03-03T00:00:00.000Z'' after_beta) =
     Inr [repo_alpha\<lparr>lastUsedAt := ''2024-03-01T00:00:00.000Z''\<rparr>,
          new_repo beta_inactive ''2024-03-02T00:00:00.000Z'']"
proof -
  have "fst (getRepositories env0 ''2024-03-03T00:00:00.000Z'' (disk_of beta_only)) =
     Inr [(new_repo beta_inactive ''2024-03-02T00:00:00.000Z'')\<lparr>isActive := True\<rparr>]"
    using getRepositories_written [of fresh_disk env0 "''2024-03-03T00:00:00.000Z''" beta_only]
    by (simp add: disk_of_def fresh_disk_def beta_only_def)
  moreover have "fst (getRepositories env0 ''2024-03-03T00:00:00.000Z'' after_beta) =
     Inr [repo_alpha\<lparr>lastUsedAt := ''2024-03-01T00:00:00.000Z''\<rparr>,
          new_repo beta_inactive ''2024-03-02T00:00:00.000Z'']"
    using getRepositories_written [of fresh_disk env0 "''2024-03-03T00:00:00.000Z''" alpha_beta]
    by (simp add: after_beta_disk_of disk_of_def fresh_disk_def alpha_beta_def)
  moreover have "snd (upsertRepository env0 ''2024-03-02T00:00:00.000Z'' beta_inactive
     (snd (upsertRepository env0 ''2024-03-01T00:00:00.000Z'' alpha fresh_disk))) = after_beta"
    by (simp add: after_beta_def after_alpha_def)
  ultimately show ?thesis
    by (simp only: race_lost_update race_rejected one_after_the_other after_beta_disk_of simp_thms)
qed

end
